theory Spec2Isabelle
  imports Complex_Main "HOL-Library.Sublist"
begin

section \<open>Python and pandas values\<close>

text \<open>
  The two functions of \<^verbatim>\<open>app.py\<close> that are modelled here are
  \<^verbatim>\<open>load_facility_data\<close> and \<^verbatim>\<open>inject_facility_markers_into_html\<close>.
  Both work on values that pandas has read from CSV files: booleans, 64-bit integers,
  64-bit floats (a missing field is the float NaN) and strings.

  A finite float is represented by its exact rational value; the negative zero, the two
  infinities and NaN are separate constructors. Every double is a rational, so the type
  has at least the values the program can see. Strings are lists of characters, a character
  standing for a code point below 256.
\<close>

datatype pyfloat = Fin rat | NegZero | PosInf | NegInf | NaN

datatype cell = CBool bool | CInt int | CFloat pyfloat | CStr string

datatype py_error = KeyError string | TypeError | ValueError | OverflowError | ReadError

text \<open>
  The conversions between floats and text are done by the Python runtime (shortest
  round-trip digits, correctly rounded parsing). They are parameters of the model:
  \<open>float_str\<close> is \<^verbatim>\<open>str(x)\<close> for a float, \<open>float_fmt4\<close> and \<open>int_fmt4\<close> are
  \<^verbatim>\<open>format(x, '.4f')\<close> for a float and for an integer, \<open>parse_float\<close> is
  \<^verbatim>\<open>float(s)\<close> for a string, which raises on text that is no number.
\<close>

record pylib =
  float_str :: "pyfloat \<Rightarrow> string"
  float_fmt4 :: "pyfloat \<Rightarrow> string"
  int_fmt4 :: "int \<Rightarrow> string"
  parse_float :: "string \<Rightarrow> py_error + pyfloat"

subsection \<open>Integers as decimal text\<close>

definition digit_char :: "nat \<Rightarrow> char" where
  "digit_char d = ''0123456789'' ! d"

fun digits :: "nat \<Rightarrow> string" where
  "digits n = (if n < 10 then [digit_char n] else digits (n div 10) @ [digit_char (n mod 10)])"

declare digits.simps [simp del]

definition show_int :: "int \<Rightarrow> string" where
  "show_int i = (if i < 0 then CHR ''-'' # digits (nat (- i)) else digits (nat i))"

subsection \<open>Equality, comparison, missing values\<close>

text \<open>
  The numeric value of a cell, as Python compares it: \<^verbatim>\<open>True\<close> is 1, \<^verbatim>\<open>False\<close> is 0,
  the two zeros are equal. A string has none.
\<close>

fun num_of :: "cell \<Rightarrow> pyfloat option" where
  "num_of (CBool b) = Some (Fin (if b then 1 else 0))"
| "num_of (CInt i) = Some (Fin (of_int i))"
| "num_of (CFloat NegZero) = Some (Fin 0)"
| "num_of (CFloat f) = Some f"
| "num_of (CStr s) = None"

text \<open>Python's \<^verbatim>\<open>==\<close>: NaN equals nothing, a string equals only the same string.\<close>

fun py_eq :: "cell \<Rightarrow> cell \<Rightarrow> bool" where
  "py_eq (CStr s) (CStr t) = (s = t)"
| "py_eq (CStr s) y = False"
| "py_eq x (CStr t) = False"
| "py_eq x y = (num_of x = num_of y \<and> num_of x \<noteq> Some NaN)"

text \<open>\<^verbatim>\<open>x is True\<close> and \<^verbatim>\<open>x is False\<close>: identity with the boolean constants.\<close>

definition is_True :: "cell \<Rightarrow> bool" where
  "is_True x = (x = CBool True)"

definition is_False :: "cell \<Rightarrow> bool" where
  "is_False x = (x = CBool False)"

text \<open>\<^verbatim>\<open>pd.isna\<close>: the missing value of a CSV field is the float NaN.\<close>

definition isna :: "cell \<Rightarrow> bool" where
  "isna x = (x = CFloat NaN)"

text \<open>
  One element of \<^verbatim>\<open>Series.between(lo, hi)\<close> with integer bounds, both inclusive:
  \<^verbatim>\<open>(x >= lo) & (x <= hi)\<close>. Comparing a string with an integer raises TypeError.
\<close>

fun between :: "int \<Rightarrow> int \<Rightarrow> cell \<Rightarrow> py_error + bool" where
  "between lo hi (CStr s) = Inl TypeError"
| "between lo hi (CBool b) = Inr (lo \<le> (if b then 1 else 0) \<and> (if b then 1 else 0) \<le> hi)"
| "between lo hi (CInt i) = Inr (lo \<le> i \<and> i \<le> hi)"
| "between lo hi (CFloat (Fin r)) = Inr (of_int lo \<le> r \<and> r \<le> of_int hi)"
| "between lo hi (CFloat NegZero) = Inr (lo \<le> 0 \<and> 0 \<le> hi)"
| "between lo hi (CFloat f) = Inr False"

subsection \<open>Strings\<close>

text \<open>\<^verbatim>\<open>str(x)\<close>, which is also what \<^verbatim>\<open>astype(str)\<close> does to each element.\<close>

fun py_str :: "pylib \<Rightarrow> cell \<Rightarrow> string" where
  "py_str lib (CStr s) = s"
| "py_str lib (CInt i) = show_int i"
| "py_str lib (CBool b) = (if b then ''True'' else ''False'')"
| "py_str lib (CFloat f) = float_str lib f"

text \<open>The characters \<^verbatim>\<open>str.strip()\<close> removes, among the code points below 256.\<close>

definition is_space :: "char \<Rightarrow> bool" where
  "is_space c = (c \<in> set [CHR 0x09, CHR 0x0A, CHR 0x0B, CHR 0x0C, CHR 0x0D, CHR 0x1C,
     CHR 0x1D, CHR 0x1E, CHR 0x1F, CHR 0x20, CHR 0x85, CHR 0xA0])"

definition py_strip :: "string \<Rightarrow> string" where
  "py_strip s = rev (dropWhile is_space (rev (dropWhile is_space s)))"

text \<open>\<^verbatim>\<open>int(x)\<close> of a float truncates towards zero and raises on the infinities and on NaN.\<close>

fun py_int :: "pyfloat \<Rightarrow> py_error + int" where
  "py_int (Fin r) = Inr (if 0 \<le> r then \<lfloor>r\<rfloor> else \<lceil>r\<rceil>)"
| "py_int NegZero = Inr 0"
| "py_int PosInf = Inl OverflowError"
| "py_int NegInf = Inl OverflowError"
| "py_int NaN = Inl ValueError"

subsection \<open>Running a function that may raise over a list\<close>

text \<open>The first exception ends the traversal, as it ends a Python loop or a pandas \<^verbatim>\<open>apply\<close>.\<close>

fun traverse :: "('a \<Rightarrow> 'e + 'b) \<Rightarrow> 'a list \<Rightarrow> 'e + 'b list" where
  "traverse f [] = Inr []"
| "traverse f (x # xs) =
     (case f x of
        Inl e \<Rightarrow> Inl e
      | Inr y \<Rightarrow> (case traverse f xs of Inl e \<Rightarrow> Inl e | Inr ys \<Rightarrow> Inr (y # ys)))"

section \<open>Data frames\<close>

text \<open>
  A frame has column names and rows, each row holding one cell per column in the order of
  the columns. The row labels are pandas' default ones, the positions \<open>0, 1, 2, \<dots>\<close>, which
  is what \<^verbatim>\<open>read_csv\<close> produces and what \<^verbatim>\<open>concat(..., ignore_index=True)\<close> restores.
\<close>

record dataframe =
  columns :: "string list"
  rows :: "cell list list"

definition cell_of :: "string list \<Rightarrow> cell list \<Rightarrow> string \<Rightarrow> cell option" where
  "cell_of cols vals name = map_of (zip cols vals) name"

text \<open>\<^verbatim>\<open>df[names]\<close>: the named columns, in the order asked for; KeyError when one is absent.\<close>

definition select_row :: "string list \<Rightarrow> string list \<Rightarrow> cell list \<Rightarrow> py_error + cell list" where
  "select_row names cols vals =
     traverse (\<lambda>n. case cell_of cols vals n of None \<Rightarrow> Inl (KeyError n) | Some v \<Rightarrow> Inr v) names"

definition select_columns :: "string list \<Rightarrow> dataframe \<Rightarrow> py_error + dataframe" where
  "select_columns names df =
     (case traverse (select_row names (columns df)) (rows df) of
        Inl e \<Rightarrow> Inl e
      | Inr rs \<Rightarrow> Inr \<lparr>columns = names, rows = rs\<rparr>)"

text \<open>\<^verbatim>\<open>df[name] = value\<close> for a new column: the same value appended to every row.\<close>

definition add_column :: "string \<Rightarrow> cell \<Rightarrow> dataframe \<Rightarrow> dataframe" where
  "add_column name v df = \<lparr>columns = columns df @ [name], rows = map (\<lambda>r. r @ [v]) (rows df)\<rparr>"

text \<open>\<^verbatim>\<open>df[name]\<close>: the cells of one column; KeyError when the frame has no such column.\<close>

definition column_values :: "string \<Rightarrow> dataframe \<Rightarrow> py_error + cell list" where
  "column_values name df =
     traverse (\<lambda>r. case cell_of (columns df) r name of None \<Rightarrow> Inl (KeyError name) | Some v \<Rightarrow> Inr v)
       (rows df)"

text \<open>\<^verbatim>\<open>df.dropna(subset=names)\<close>: the rows where none of the named cells is missing.\<close>

definition dropna :: "string list \<Rightarrow> dataframe \<Rightarrow> py_error + dataframe" where
  "dropna names df =
     (case filter (\<lambda>n. n \<notin> set (columns df)) names of
        n # _ \<Rightarrow> Inl (KeyError n)
      | [] \<Rightarrow> Inr (df\<lparr>rows := filter (\<lambda>r. list_all (\<lambda>n. case cell_of (columns df) r n of
                                         None \<Rightarrow> True | Some v \<Rightarrow> \<not> isna v) names) (rows df)\<rparr>))"

text \<open>\<^verbatim>\<open>df[mask]\<close> for a boolean mask with one entry per row.\<close>

definition filter_mask :: "bool list \<Rightarrow> dataframe \<Rightarrow> dataframe" where
  "filter_mask keep df = df\<lparr>rows := map fst (filter snd (zip (rows df) keep))\<rparr>"

text \<open>
  \<^verbatim>\<open>df[col] = df[col].apply(f)\<close>: one column rewritten cell by cell, by a function that may
  raise. The columns of a frame read from a CSV file have distinct names.
\<close>

definition apply_row :: "string \<Rightarrow> (cell \<Rightarrow> py_error + cell) \<Rightarrow> string list \<Rightarrow> cell list \<Rightarrow> py_error + cell list" where
  "apply_row col f cols vals = traverse (\<lambda>(c, v). if c = col then f v else Inr v) (zip cols vals)"

definition apply_column :: "string \<Rightarrow> (cell \<Rightarrow> py_error + cell) \<Rightarrow> dataframe \<Rightarrow> py_error + dataframe" where
  "apply_column col f df =
     (case traverse (apply_row col f (columns df)) (rows df) of
        Inl e \<Rightarrow> Inl e
      | Inr rs \<Rightarrow> Inr (df\<lparr>rows := rs\<rparr>))"

text \<open>\<^verbatim>\<open>pd.concat(frames, ignore_index=True)\<close> for frames that all have the same columns.\<close>

definition pd_concat :: "dataframe list \<Rightarrow> dataframe" where
  "pd_concat frames =
     \<lparr>columns = (case frames of [] \<Rightarrow> [] | f # _ \<Rightarrow> columns f), rows = concat (map rows frames)\<rparr>"

text \<open>Sequencing of steps that may raise.\<close>

definition and_then :: "'e + 'a \<Rightarrow> ('a \<Rightarrow> 'e + 'b) \<Rightarrow> 'e + 'b" where
  "and_then m f = (case m of Inl e \<Rightarrow> Inl e | Inr x \<Rightarrow> f x)"

section \<open>The facility loader\<close>

definition required_columns :: "string list" where
  "required_columns = [''NPI'', ''Group Name'', ''Street Address'', ''City'', ''State'', ''Zip'',
     ''Latitude'', ''Longitude'', ''is_substance_abuse_rehab'', ''is_sud_rehab_clinic'']"

text \<open>
  The cleaning of the text columns: \<^verbatim>\<open>astype(str).str.strip()\<close>.
\<close>

definition clean_text :: "pylib \<Rightarrow> cell \<Rightarrow> py_error + cell" where
  "clean_text lib x = Inr (CStr (py_strip (py_str lib x)))"

text \<open>
  The postal code. The column is first turned into stripped strings, then
  \<^verbatim>\<open>lambda x: str(int(float(x))) if pd.notnull(x) and str(x).endswith('.0') else str(x)\<close>
  is applied; \<open>zip_lambda\<close> is that function on the strings it receives, \<open>clean_zip\<close> the
  two statements together.
\<close>

definition zip_lambda :: "pylib \<Rightarrow> string \<Rightarrow> py_error + string" where
  "zip_lambda lib x =
     (if suffix ''.0'' x
      then and_then (parse_float lib x) (\<lambda>f. and_then (py_int f) (\<lambda>i. Inr (show_int i)))
      else Inr x)"

definition clean_zip :: "pylib \<Rightarrow> cell \<Rightarrow> py_error + cell" where
  "clean_zip lib x = and_then (zip_lambda lib (py_strip (py_str lib x))) (\<lambda>z. Inr (CStr z))"

text \<open>
  The flags:
  \<^verbatim>\<open>'True' if x is True or x == 1.0 or x == 1 else 'False' if x is False or x == 0.0 or x == 0 else 'N/A'\<close>.
\<close>

definition normalize_flag :: "cell \<Rightarrow> string" where
  "normalize_flag x =
     (if is_True x \<or> py_eq x (CFloat (Fin 1)) \<or> py_eq x (CInt 1) then ''True''
      else if is_False x \<or> py_eq x (CFloat (Fin 0)) \<or> py_eq x (CInt 0) then ''False''
      else ''N/A'')"

definition clean_flag :: "cell \<Rightarrow> py_error + cell" where
  "clean_flag x = Inr (CStr (normalize_flag x))"

text \<open>
  A loop \<^verbatim>\<open>for col in names: if col in df.columns: df[col] = df[col].apply(f)\<close>.
\<close>

fun for_columns :: "string list \<Rightarrow> (cell \<Rightarrow> py_error + cell) \<Rightarrow> dataframe \<Rightarrow> py_error + dataframe" where
  "for_columns [] f df = Inr df"
| "for_columns (col # cols) f df =
     (if col \<in> set (columns df)
      then and_then (apply_column col f df) (for_columns cols f)
      else for_columns cols f df)"

text \<open>
  The body of the \<^verbatim>\<open>try\<close> block after the check of the columns: what one file, read
  into \<open>df\<close>, contributes.
\<close>

definition clean_facility_df :: "pylib \<Rightarrow> string \<Rightarrow> dataframe \<Rightarrow> py_error + dataframe" where
  "clean_facility_df lib name df =
     and_then (select_columns required_columns df) (\<lambda>selected.
     and_then (dropna [''Group Name'', ''Latitude'', ''Longitude''] (add_column ''source_file'' (CStr name) selected)) (\<lambda>present.
     and_then (column_values ''Latitude'' present) (\<lambda>lats.
     and_then (traverse (between (- 90) 90) lats) (\<lambda>lat_ok.
     and_then (column_values ''Longitude'' present) (\<lambda>lons.
     and_then (traverse (between (- 180) 180) lons) (\<lambda>lon_ok.
     and_then (for_columns [''Group Name'', ''Street Address'', ''City'', ''State''] (clean_text lib)
                 (filter_mask (map2 (\<and>) lat_ok lon_ok) present)) (\<lambda>trimmed.
     and_then (for_columns [''Zip''] (clean_zip lib) trimmed) (\<lambda>zipped.
     for_columns [''is_substance_abuse_rehab'', ''is_sud_rehab_clinic''] clean_flag zipped))))))))"

text \<open>
  What the loader reports to the user: \<^verbatim>\<open>st.warning\<close> for a missing directory, for a
  file without the required columns and for a file whose processing raised,
  \<^verbatim>\<open>st.info\<close> for a directory without CSV files.
\<close>

datatype notice =
    DirectoryNotFound
  | NoCsvFiles
  | MissingColumns string "string list"
  | CouldNotProcess string py_error

text \<open>
  One iteration of the loop over the files. A file is its name and what
  \<^verbatim>\<open>pd.read_csv\<close> makes of it: an exception or a frame.
\<close>

definition process_file :: "pylib \<Rightarrow> string \<Rightarrow> py_error + dataframe \<Rightarrow> notice + dataframe" where
  "process_file lib name content =
     (case content of
        Inl e \<Rightarrow> Inl (CouldNotProcess name e)
      | Inr df \<Rightarrow>
          (let missing_cols = filter (\<lambda>col. col \<notin> set (columns df)) required_columns in
           if missing_cols \<noteq> [] then Inl (MissingColumns name missing_cols)
           else (case clean_facility_df lib name df of
                   Inl e \<Rightarrow> Inl (CouldNotProcess name e)
                 | Inr facility_df \<Rightarrow> Inr facility_df)))"

fun load_loop :: "pylib \<Rightarrow> (string \<times> (py_error + dataframe)) list \<Rightarrow>
    dataframe list \<times> notice list \<Rightarrow> dataframe list \<times> notice list" where
  "load_loop lib [] state = state"
| "load_loop lib ((name, content) # files) (consolidated_facilities, notices) =
     (case process_file lib name content of
        Inl n \<Rightarrow> load_loop lib files (consolidated_facilities, notices @ [n])
      | Inr facility_df \<Rightarrow> load_loop lib files (consolidated_facilities @ [facility_df], notices))"

text \<open>The directory as the loader sees it: whether it exists, and its CSV files in glob order.\<close>

record directory =
  dir_exists :: bool
  csv_files :: "(string \<times> (py_error + dataframe)) list"

definition load_facility_data :: "pylib \<Rightarrow> directory \<Rightarrow> dataframe option \<times> notice list" where
  "load_facility_data lib dir =
     (if \<not> dir_exists dir then (None, [DirectoryNotFound])
      else if csv_files dir = [] then (None, [NoCsvFiles])
      else (case load_loop lib (csv_files dir) ([], []) of
              (consolidated_facilities, notices) \<Rightarrow>
                (if consolidated_facilities \<noteq> [] then Some (pd_concat consolidated_facilities)
                 else None, notices)))"

section \<open>The overlay renderer\<close>

subsection \<open>String operations\<close>

text \<open>
  \<^verbatim>\<open>s.replace(old, new)\<close>: the occurrences of \<open>old\<close> are found from left to right
  and do not overlap; after a match the scan goes on behind it.
\<close>

fun py_replace :: "string \<Rightarrow> string \<Rightarrow> string \<Rightarrow> string" where
  "py_replace old new [] = (if old = [] then new else [])"
| "py_replace old new (c # cs) =
     (if old = [] then new @ c # py_replace old new cs
      else if prefix old (c # cs) then new @ py_replace old new (drop (length old - 1) cs)
      else c # py_replace old new cs)"

text \<open>\<^verbatim>\<open>s.lower()\<close> on the code points below 256.\<close>

definition py_lower_char :: "char \<Rightarrow> char" where
  "py_lower_char c =
     (let n = (of_char c :: nat)
      in if (65 \<le> n \<and> n \<le> 90) \<or> (192 \<le> n \<and> n \<le> 222 \<and> n \<noteq> 215) then char_of (n + 32) else c)"

definition py_lower :: "string \<Rightarrow> string" where
  "py_lower s = map py_lower_char s"

text \<open>\<^verbatim>\<open>sep.join(parts)\<close>.\<close>

fun py_join :: "string \<Rightarrow> string list \<Rightarrow> string" where
  "py_join sep [] = []"
| "py_join sep [x] = x"
| "py_join sep (x # y # ys) = x @ sep @ py_join sep (y # ys)"

subsection \<open>The fixed pieces of the script\<close>

definition cluster_plugin_js :: string where
  "cluster_plugin_js =
     [CHR 0x0A] @
     ''        // Add MarkerCluster CSS and JS'' @ [CHR 0x0A] @
     ''        var clusterCSS = document.createElement('link');'' @ [CHR 0x0A] @
     ''        clusterCSS.rel = 'stylesheet';'' @ [CHR 0x0A] @
     ''        clusterCSS.href = 'https://unpkg.com/leaflet.markercluster@1.4.1/dist/MarkerCluster.css';'' @
     [CHR 0x0A] @
     ''        document.head.appendChild(clusterCSS);'' @ [CHR 0x0A] @
     ''        '' @ [CHR 0x0A] @
     ''        var clusterDefaultCSS = document.createElement('link');'' @ [CHR 0x0A] @
     ''        clusterDefaultCSS.rel = 'stylesheet';'' @ [CHR 0x0A] @
     ''        clusterDefaultCSS.href = 'https://unpkg.com/leaflet.markercluster@1.4.1/dist/MarkerCluster.Default.css';'' @
     [CHR 0x0A] @
     ''        document.head.appendChild(clusterDefaultCSS);'' @ [CHR 0x0A] @
     ''        '' @ [CHR 0x0A] @
     ''        var clusterJS = document.createElement('script');'' @ [CHR 0x0A] @
     ''        clusterJS.src = 'https://unpkg.com/leaflet.markercluster@1.4.1/dist/leaflet.markercluster.js';'' @
     [CHR 0x0A] @
     ''        document.head.appendChild(clusterJS);'' @ [CHR 0x0A] @
     ''        ''"

definition cluster_open_js :: string where
  "cluster_open_js =
     [CHR 0x0A] @
     ''        // Wait for the map to be fully loaded'' @ [CHR 0x0A] @
     ''        setTimeout(function() {'' @ [CHR 0x0A] @
     ''            // Find the map object (folium creates global map variables)'' @ [CHR 0x0A] @
     ''            var mapObj = window[Object.keys(window).find(key => key.startsWith('map_'))];'' @
     [CHR 0x0A] @
     ''            '' @ [CHR 0x0A] @
     ''            if (mapObj) {'' @ [CHR 0x0A] @
     ''                // Create marker cluster group'' @ [CHR 0x0A] @
     ''                var facilityCluster = L.markerClusterGroup({'' @ [CHR 0x0A] @
     ''                    showCoverageOnHover: false,'' @ [CHR 0x0A] @
     ''                    zoomToBoundsOnClick: true,'' @ [CHR 0x0A] @
     ''                    spiderfyOnMaxZoom: false,'' @ [CHR 0x0A] @
     ''                    removeOutsideVisibleBounds: true,'' @ [CHR 0x0A] @
     ''                    disableClusteringAtZoom: 13'' @ [CHR 0x0A] @
     ''                });'' @ [CHR 0x0A] @
     ''                '' @ [CHR 0x0A] @
     ''                // Add facility markers'' @ [CHR 0x0A] @
     ''    ''"

definition cluster_close_js :: string where
  "cluster_close_js =
     [CHR 0x0A] @
     ''                // Add cluster to map'' @ [CHR 0x0A] @
     ''                mapObj.addLayer(facilityCluster);'' @ [CHR 0x0A] @
     ''                '' @ [CHR 0x0A] @
     ''                // Add layer control if it doesn't exist'' @ [CHR 0x0A] @
     ''                if (!mapObj.layerControl) {'' @ [CHR 0x0A] @
     ''                    var baseLayers = {};'' @ [CHR 0x0A] @
     ''                    var overlayLayers = {'' @ [CHR 0x0A] @
     ''                        '' @ [CHR 0x22] @ ''Individual Facilities'' @ [CHR 0x22] @
     '': facilityCluster'' @ [CHR 0x0A] @
     ''                    };'' @ [CHR 0x0A] @
     ''                    mapObj.layerControl = L.control.layers(baseLayers, overlayLayers).addTo(mapObj);'' @
     [CHR 0x0A] @
     ''                } else {'' @ [CHR 0x0A] @
     ''                    // Check if '' @ [CHR 0x22] @ ''Individual Facilities'' @ [CHR 0x22] @
     '' overlay already exists to avoid duplication on rerun'' @ [CHR 0x0A] @
     ''                    var existingOverlays = mapObj.layerControl._layers.filter(layer => layer.overlay).map(layer => layer.name);'' @
     [CHR 0x0A] @
     ''                    if (!existingOverlays.includes('' @ [CHR 0x22] @
     ''Individual Facilities'' @ [CHR 0x22] @ '')) {'' @ [CHR 0x0A] @
     ''                        mapObj.layerControl.addOverlay(facilityCluster, '' @ [CHR 0x22] @
     ''Individual Facilities'' @ [CHR 0x22] @ '');'' @ [CHR 0x0A] @
     ''                    }'' @ [CHR 0x0A] @
     ''                }'' @ [CHR 0x0A] @
     ''            }'' @ [CHR 0x0A] @
     ''        }, 1000);'' @ [CHR 0x0A] @
     ''    ''"

subsection \<open>One marker\<close>

text \<open>\<^verbatim>\<open>facility.get(name, default)\<close> and \<^verbatim>\<open>facility[name]\<close> on a row of the frame.\<close>

definition series_get :: "string list \<Rightarrow> cell list \<Rightarrow> string \<Rightarrow> cell \<Rightarrow> cell" where
  "series_get cols facility name fallback =
     (case cell_of cols facility name of None \<Rightarrow> fallback | Some v \<Rightarrow> v)"

definition series_item :: "string list \<Rightarrow> cell list \<Rightarrow> string \<Rightarrow> py_error + cell" where
  "series_item cols facility name =
     (case cell_of cols facility name of None \<Rightarrow> Inl (KeyError name) | Some v \<Rightarrow> Inr v)"

text \<open>
  The fill colour and the description of the facility type, from the two flags as the row
  holds them.
\<close>

definition classify :: "cell \<Rightarrow> cell \<Rightarrow> string \<times> string" where
  "classify is_substance_abuse is_sud_clinic =
     (let is_substance_abuse_bool = py_eq is_substance_abuse (CStr ''True'');
          is_sud_clinic_bool = py_eq is_sud_clinic (CStr ''True'')
      in if is_substance_abuse_bool \<and> is_sud_clinic_bool
           then (''#800080'', ''Substance Abuse Rehab & SUD Rehab Clinic'')
         else if is_substance_abuse_bool then (''#FF0000'', ''Substance Abuse Rehab'')
         else if is_sud_clinic_bool then (''#0000FF'', ''SUD Rehab Clinic'')
         else (''#808080'', ''Other/Unknown''))"

text \<open>
  \<^verbatim>\<open>f"{facility.get(name, 'N/A'):.4f}" if pd.notnull(facility.get(name)) else 'N/A'\<close>:
  an absent or missing coordinate is shown as \<^verbatim>\<open>N/A\<close>; a string cannot be formatted
  with \<^verbatim>\<open>.4f\<close> and raises ValueError.
\<close>

definition fmt_coord :: "pylib \<Rightarrow> cell option \<Rightarrow> py_error + string" where
  "fmt_coord lib v =
     (case v of
        None \<Rightarrow> Inr ''N/A''
      | Some c \<Rightarrow>
          if isna c then Inr ''N/A''
          else (case c of
                  CStr s \<Rightarrow> Inl ValueError
                | CInt i \<Rightarrow> Inr (int_fmt4 lib i)
                | CBool b \<Rightarrow> Inr (int_fmt4 lib (if b then 1 else 0))
                | CFloat f \<Rightarrow> Inr (float_fmt4 lib f)))"

text \<open>
  The popup before the two replacements, a string made of the eleven strings that the
  f-string interpolates.
\<close>

definition popup_template where
  "popup_template npi group_name facility_type_desc street_address city state zip_code latitude
       longitude is_substance_abuse is_sud_clinic =
     [CHR 0x0A] @
     ''        <b>NPI:</b> '' @ npi @ ''<br>'' @ [CHR 0x0A] @
     ''        <b>Facility Name:</b> '' @ group_name @ ''<br>'' @ [CHR 0x0A] @
     ''        <b>Facility Type:</b> '' @ facility_type_desc @ ''<br>'' @ [CHR 0x0A] @
     ''        <b>Street Address:</b> '' @ street_address @ ''<br>'' @ [CHR 0x0A] @
     ''        <b>City:</b> '' @ city @ ''<br>'' @ [CHR 0x0A] @
     ''        <b>State:</b> '' @ state @ ''<br>'' @ [CHR 0x0A] @
     ''        <b>Zip:</b> '' @ zip_code @ ''<br>'' @ [CHR 0x0A] @
     ''        <b>Coordinates:</b> '' @ latitude @ '', '' @ longitude @ ''<br>'' @ [CHR 0x0A] @
     ''        <br>'' @ [CHR 0x0A] @
     ''        <b>is_substance_abuse_rehab:</b> '' @ is_substance_abuse @ ''<br>'' @ [CHR 0x0A] @
     ''        <b>is_sud_rehab_clinic:</b> '' @ is_sud_clinic @ ''<br>'' @ [CHR 0x0A] @
     ''        ''"

text \<open>\<^verbatim>\<open>.replace('"', '\\"').replace('\n', '\\n')\<close>\<close>

definition escape_popup :: "string \<Rightarrow> string" where
  "escape_popup s =
     py_replace [CHR 0x0A] [CHR 0x5C, CHR ''n''] (py_replace [CHR 0x22] [CHR 0x5C, CHR 0x22] s)"

definition marker_template :: "string \<Rightarrow> string \<Rightarrow> string \<Rightarrow> string \<Rightarrow> string \<Rightarrow> string \<Rightarrow> string" where
  "marker_template idx lat lon marker_color fill_color popup_html =
     [CHR 0x0A] @
     ''                var marker_'' @ idx @ '' = L.circleMarker(['' @ lat @ '', '' @ lon @
     ''], {'' @ [CHR 0x0A] @
     ''                    radius: 7,'' @ [CHR 0x0A] @
     ''                    color: '' @ [CHR 0x27] @ marker_color @ [CHR 0x27] @ '','' @
     [CHR 0x0A] @
     ''                    weight: 2,'' @ [CHR 0x0A] @
     ''                    opacity: 0.9,'' @ [CHR 0x0A] @
     ''                    fillColor: '' @ [CHR 0x27] @ fill_color @ [CHR 0x27] @ '','' @
     [CHR 0x0A] @
     ''                    fillOpacity: 0.7'' @ [CHR 0x0A] @
     ''                }).bindPopup('' @ [CHR 0x22] @ popup_html @ [CHR 0x22] @
     '', {maxWidth: 300});'' @ [CHR 0x0A] @
     ''                '' @ [CHR 0x0A] @
     ''                facilityCluster.addLayer(marker_'' @ idx @ '');'' @ [CHR 0x0A] @
     ''        ''"

text \<open>The popup of one row, and the body of the loop over the rows.\<close>

definition popup_html :: "pylib \<Rightarrow> string list \<Rightarrow> cell list \<Rightarrow> py_error + string" where
  "popup_html lib cols facility =
     (let is_substance_abuse = series_get cols facility ''is_substance_abuse_rehab'' (CStr ''N/A'');
          is_sud_clinic = series_get cols facility ''is_sud_rehab_clinic'' (CStr ''N/A'');
          facility_type_desc = snd (classify is_substance_abuse is_sud_clinic);
          npi = py_str lib (series_get cols facility ''NPI'' (CStr ''N/A''));
          group_name = py_str lib (series_get cols facility ''Group Name'' (CStr ''N/A''));
          street_address = py_str lib (series_get cols facility ''Street Address'' (CStr ''N/A''));
          city = py_str lib (series_get cols facility ''City'' (CStr ''N/A''));
          state = py_str lib (series_get cols facility ''State'' (CStr ''N/A''));
          zip_code = py_str lib (series_get cols facility ''Zip'' (CStr ''N/A''))
      in and_then (fmt_coord lib (cell_of cols facility ''Latitude'')) (\<lambda>latitude.
         and_then (fmt_coord lib (cell_of cols facility ''Longitude'')) (\<lambda>longitude.
           Inr (escape_popup (popup_template npi group_name facility_type_desc street_address city
                  state zip_code latitude longitude (py_str lib is_substance_abuse)
                  (py_str lib is_sud_clinic))))))"

definition marker_js :: "pylib \<Rightarrow> string list \<Rightarrow> nat \<times> cell list \<Rightarrow> py_error + string" where
  "marker_js lib cols row =
     (case row of (idx, facility) \<Rightarrow>
        (let is_substance_abuse = series_get cols facility ''is_substance_abuse_rehab'' (CStr ''N/A'');
             is_sud_clinic = series_get cols facility ''is_sud_rehab_clinic'' (CStr ''N/A'');
             fill_color = fst (classify is_substance_abuse is_sud_clinic);
             marker_color = ''#000000''
         in and_then (popup_html lib cols facility) (\<lambda>popup.
            and_then (series_item cols facility ''Latitude'') (\<lambda>lat.
            and_then (series_item cols facility ''Longitude'') (\<lambda>lon.
              Inr (marker_template (show_int (int idx)) (py_str lib lat) (py_str lib lon)
                     marker_color fill_color popup))))))"

subsection \<open>The document\<close>

text \<open>\<^verbatim>\<open>df.empty\<close>: no rows or no columns.\<close>

definition df_empty :: "dataframe \<Rightarrow> bool" where
  "df_empty df = (rows df = [] \<or> columns df = [])"

text \<open>
  The script block for a document and a frame that is not empty; the loop over the rows
  raises what the first failing row raises.
\<close>

definition script_tag :: "pylib \<Rightarrow> string \<Rightarrow> dataframe \<Rightarrow> py_error + string" where
  "script_tag lib original_html df =
     and_then (traverse (marker_js lib (columns df)) (enumerate 0 (rows df))) (\<lambda>markers.
       (let facility_js_code =
              (if \<not> sublist ''markercluster.css'' (py_lower original_html) then [cluster_plugin_js] else [])
              @ [cluster_open_js] @ markers @ [cluster_close_js];
            full_js_code = py_join [CHR 0x0A] facility_js_code
        in Inr (''<script>'' @ full_js_code @ ''</script>'')))"

definition inject_facility_markers_into_html :: "pylib \<Rightarrow> string \<Rightarrow> dataframe option \<Rightarrow> py_error + string" where
  "inject_facility_markers_into_html lib original_html facilities_df =
     (case facilities_df of
        None \<Rightarrow> Inr original_html
      | Some df \<Rightarrow>
          if df_empty df then Inr original_html
          else and_then (script_tag lib original_html df) (\<lambda>tag.
                 if sublist ''</body>'' original_html
                 then Inr (py_replace ''</body>'' (tag @ [CHR 0x0A] @ ''</body>'') original_html)
                 else Inr (original_html @ tag)))"
section \<open>Notions used in the properties\<close>

definition facility_columns :: "string list" where
  "facility_columns = required_columns @ [''source_file'']"

definition facility_frame :: "dataframe \<Rightarrow> bool" where
  "facility_frame df = (columns df = facility_columns \<and> list_all (\<lambda>r. length r = 11) (rows df))"

definition valid_row :: "cell list \<Rightarrow> bool" where
  "valid_row r = (\<not> isna (r ! 1) \<and> \<not> isna (r ! 6) \<and> \<not> isna (r ! 7) \<and>
     between (- 90) 90 (r ! 6) = Inr True \<and> between (- 180) 180 (r ! 7) = Inr True)"

definition facility_of :: "string list \<Rightarrow> string \<Rightarrow> cell list \<Rightarrow> cell list" where
  "facility_of cols name r =
     map (\<lambda>n. case cell_of cols r n of None \<Rightarrow> CFloat NaN | Some v \<Rightarrow> v) required_columns @ [CStr name]"

definition cleaned :: "pylib \<Rightarrow> cell list \<Rightarrow> cell list \<Rightarrow> bool" where
  "cleaned lib r r' = (\<exists>z. zip_lambda lib (py_strip (py_str lib (r ! 5))) = Inr z \<and>
     r' = [r ! 0, CStr (py_strip (py_str lib (r ! 1))), CStr (py_strip (py_str lib (r ! 2))),
           CStr (py_strip (py_str lib (r ! 3))), CStr (py_strip (py_str lib (r ! 4))), CStr z,
           r ! 6, r ! 7, CStr (normalize_flag (r ! 8)), CStr (normalize_flag (r ! 9)), r ! 10])"


text \<open>
  A number within integer bounds, both inclusive; a string, an infinity and NaN are not.
\<close>

definition in_range :: "int \<Rightarrow> int \<Rightarrow> cell \<Rightarrow> bool" where
  "in_range lo hi c = (case num_of c of Some (Fin r) \<Rightarrow> of_int lo \<le> r \<and> r \<le> of_int hi | _ \<Rightarrow> False)"

text \<open>
  The rows of a source frame that the loader keeps: the name is present, and both
  coordinates are present and in range.
\<close>

definition retained :: "string list \<Rightarrow> cell list \<Rightarrow> bool" where
  "retained cols r =
     (case (cell_of cols r ''Group Name'', cell_of cols r ''Latitude'', cell_of cols r ''Longitude'') of
        (Some nm, Some la, Some lo) \<Rightarrow> \<not> isna nm \<and> in_range (- 90) 90 la \<and> in_range (- 180) 180 lo
      | _ \<Rightarrow> False)"

text \<open>A record of the loader's output with a name and with coordinates in range.\<close>

definition valid_facility :: "string list \<Rightarrow> cell list \<Rightarrow> bool" where
  "valid_facility cols r =
     (case (cell_of cols r ''Group Name'', cell_of cols r ''Latitude'', cell_of cols r ''Longitude'') of
        (Some (CStr nm), Some la, Some lo) \<Rightarrow> in_range (- 90) 90 la \<and> in_range (- 180) 180 lo
      | _ \<Rightarrow> False)"

text \<open>The results of the loop over the files, one per file, and their two kinds.\<close>

definition outcomes :: "pylib \<Rightarrow> (string \<times> (py_error + dataframe)) list \<Rightarrow> (notice + dataframe) list" where
  "outcomes lib files = map (\<lambda>(name, content). process_file lib name content) files"

fun lefts :: "('a + 'b) list \<Rightarrow> 'a list" where
  "lefts [] = []"
| "lefts (Inl a # xs) = a # lefts xs"
| "lefts (Inr b # xs) = lefts xs"

fun rights :: "('a + 'b) list \<Rightarrow> 'b list" where
  "rights [] = []"
| "rights (Inl a # xs) = rights xs"
| "rights (Inr b # xs) = b # rights xs"

text \<open>The rows of a load, none when the loader returns \<^verbatim>\<open>None\<close>.\<close>

definition loaded_rows :: "dataframe option \<times> notice list \<Rightarrow> cell list list" where
  "loaded_rows res = (case fst res of None \<Rightarrow> [] | Some df \<Rightarrow> rows df)"

text \<open>A bare digit string: not empty, decimal digits only.\<close>

definition digit_string :: "string \<Rightarrow> bool" where
  "digit_string s = (s \<noteq> [] \<and> list_all (\<lambda>c. c \<in> set ''0123456789'') s)"

subsection \<open>An instance of the float conversions\<close>

text \<open>
  For evaluating the functions on examples, an instance of the conversions that agrees
  with CPython on NaN, on the infinities, on the zeros and on the whole numbers of
  magnitude below \<open>2^53\<close>: \<^verbatim>\<open>str(12345.0)\<close> is \<^verbatim>\<open>'12345.0'\<close>,
  \<^verbatim>\<open>format(40, '.4f')\<close> is \<^verbatim>\<open>'40.0000'\<close>, \<^verbatim>\<open>float('12345.0')\<close> is
  \<^verbatim>\<open>12345.0\<close>. Numbers with a fraction are outside of it: it prints their integer part
  and rejects their text. The examples use whole numbers only.
\<close>

definition whole_str :: "string \<Rightarrow> pyfloat \<Rightarrow> string" where
  "whole_str ending f =
     (case f of
        Fin r \<Rightarrow> show_int (if 0 \<le> r then \<lfloor>r\<rfloor> else \<lceil>r\<rceil>) @ ending
      | NegZero \<Rightarrow> ''-0'' @ ending
      | PosInf \<Rightarrow> ''inf''
      | NegInf \<Rightarrow> ''-inf''
      | NaN \<Rightarrow> ''nan'')"

definition digits_value :: "string \<Rightarrow> nat" where
  "digits_value s = foldl (\<lambda>n c. 10 * n + (of_char c - 48)) 0 s"

definition whole_parse :: "string \<Rightarrow> py_error + pyfloat" where
  "whole_parse s =
     (let negative = (take 1 s = ''-'');
          body = (if take 1 s = ''-'' \<or> take 1 s = ''+'' then drop 1 s else s);
          whole = takeWhile (\<lambda>c. c \<in> set ''0123456789'') body;
          rest = dropWhile (\<lambda>c. c \<in> set ''0123456789'') body
      in if whole = [] \<or> \<not> (rest = [] \<or> (take 1 rest = ''.'' \<and> list_all (\<lambda>c. c = CHR ''0'') (drop 1 rest)))
         then Inl ValueError
         else if digits_value whole = 0 then Inr (if negative then NegZero else Fin 0)
         else Inr (Fin (if negative then - of_nat (digits_value whole) else of_nat (digits_value whole))))"

definition whole_numbers :: pylib where
  "whole_numbers = \<lparr>float_str = whole_str ''.0'', float_fmt4 = whole_str ''.0000'',
     int_fmt4 = (\<lambda>i. show_int i @ ''.0000''), parse_float = whole_parse\<rparr>"

subsection \<open>Example files\<close>

definition clinic_row :: "cell \<Rightarrow> cell \<Rightarrow> cell \<Rightarrow> cell \<Rightarrow> cell \<Rightarrow> cell list" where
  "clinic_row zp la lo f1 f2 =
     [CInt 1234567893, CStr '' Alpha Clinic'', CStr ''1 Main St'', CStr ''Springfield '', CStr ''IL'',
      zp, la, lo, f1, f2]"

definition clinics :: dataframe where
  "clinics = \<lparr>columns = required_columns, rows =
     [clinic_row (CFloat (Fin 62704)) (CInt 40) (CInt (- 90)) (CInt 1) (CInt 0),
      clinic_row (CStr ''62704-1234'') (CFloat (Fin 40)) (CFloat (Fin (- 89))) (CBool True) (CBool True),
      clinic_row (CInt 62704) (CInt 91) (CInt (- 90)) (CInt 1) (CInt 1),
      clinic_row (CFloat NaN) (CInt 40) (CInt 0) (CStr ''maybe'') (CFloat NaN),
      clinic_row (CInt 62704) (CFloat NaN) (CInt (- 90)) (CInt 0) (CInt 1)]\<rparr>"

definition cleaned_row :: "string \<Rightarrow> cell \<Rightarrow> cell \<Rightarrow> string \<Rightarrow> string \<Rightarrow> cell list" where
  "cleaned_row zp la lo f1 f2 =
     [CInt 1234567893, CStr ''Alpha Clinic'', CStr ''1 Main St'', CStr ''Springfield'', CStr ''IL'',
      CStr zp, la, lo, CStr f1, CStr f2, CStr ''a.csv'']"

definition clinics_cleaned :: dataframe where
  "clinics_cleaned = \<lparr>columns = required_columns @ [''source_file''], rows =
     [cleaned_row ''62704'' (CInt 40) (CInt (- 90)) ''True'' ''False'',
      cleaned_row ''62704-1234'' (CFloat (Fin 40)) (CFloat (Fin (- 89))) ''True'' ''True'',
      cleaned_row ''nan'' (CInt 40) (CInt 0) ''N/A'' ''N/A'']\<rparr>"

text \<open>A file of \<open>n\<close> equal rows, all of them valid, and what the loader makes of it.\<close>

definition plain_file :: "nat \<Rightarrow> dataframe" where
  "plain_file n = \<lparr>columns = required_columns, rows = replicate n
     [CInt 7, CStr ''Beta'', CStr ''2 Elm St'', CStr ''Salem'', CStr ''OR'', CInt 97301, CInt 44,
      CInt (- 123), CInt 0, CInt 1]\<rparr>"

definition plain_loaded :: "string \<Rightarrow> nat \<Rightarrow> dataframe" where
  "plain_loaded name n = \<lparr>columns = required_columns @ [''source_file''], rows = replicate n
     [CInt 7, CStr ''Beta'', CStr ''2 Elm St'', CStr ''Salem'', CStr ''OR'', CStr ''97301'', CInt 44,
      CInt (- 123), CStr ''False'', CStr ''True'', CStr name]\<rparr>"

text \<open>A file without the postal code column.\<close>

definition no_zip_file :: dataframe where
  "no_zip_file = \<lparr>columns = [''NPI'', ''Group Name'', ''Street Address'', ''City'', ''State'',
     ''Latitude'', ''Longitude'', ''is_substance_abuse_rehab'', ''is_sud_rehab_clinic''], rows =
     [[CInt 9, CStr ''Gamma'', CStr ''3 Oak St'', CStr ''Bend'', CStr ''OR'', CInt 44, CInt (- 121),
       CInt 1, CInt 1]]\<rparr>"
section \<open>The steps of the loader on frames with the facility columns\<close>

lemma and_then_Inr: "and_then m f = Inr y \<longleftrightarrow> (\<exists>x. m = Inr x \<and> f x = Inr y)"
  by (cases m) (simp_all add: and_then_def)

lemma traverse_all2: "traverse f xs = Inr ys \<Longrightarrow> list_all2 (\<lambda>x y. f x = Inr y) xs ys"
  by (induction xs arbitrary: ys) (auto split: sum.splits)

lemma all2_traverse: "list_all2 (\<lambda>x y. f x = Inr y) xs ys \<Longrightarrow> traverse f xs = Inr ys"
  by (induction xs ys rule: list_all2_induct) auto

lemma traverse_total: "traverse (\<lambda>x. Inr (h x)) xs = Inr (map h xs)"
  by (induction xs) auto

lemma traverse_cong: "(\<And>x. x \<in> set xs \<Longrightarrow> f x = g x) \<Longrightarrow> traverse f xs = traverse g xs"
  by (induction xs) (simp_all split: sum.splits)

lemma len11:
  "length r = 11 \<Longrightarrow> \<exists>a0 a1 a2 a3 a4 a5 a6 a7 a8 a9 a10. r = [a0, a1, a2, a3, a4, a5, a6, a7, a8, a9, a10]"
  by (auto simp: numeral_eq_Suc length_Suc_conv)

lemma traverse_lookup:
  "traverse (\<lambda>n. case g n of None \<Rightarrow> Inl (e n) | Some v \<Rightarrow> Inr v) names = Inr vs \<Longrightarrow>
   vs = map (\<lambda>n. case g n of None \<Rightarrow> d | Some v \<Rightarrow> v) names \<and> list_all (\<lambda>n. g n \<noteq> None) names"
  by (induction names arbitrary: vs) (auto split: option.splits sum.splits)

lemma select_row_required:
  assumes "select_row required_columns cols r = Inr r1"
  shows "r1 @ [CStr name] = facility_of cols name r"
    and "list_all (\<lambda>n. cell_of cols r n \<noteq> None) required_columns"
  using traverse_lookup [OF assms [unfolded select_row_def], of "CFloat NaN"]
  by (simp_all add: facility_of_def)

lemma length_facility_of: "length (facility_of cols name r) = 11"
  by (simp add: facility_of_def required_columns_def)

lemma cell_of_facility:
  assumes "length r = 11"
  shows "cell_of facility_columns r ''NPI'' = Some (r ! 0)"
    and "cell_of facility_columns r ''Group Name'' = Some (r ! 1)"
    and "cell_of facility_columns r ''Street Address'' = Some (r ! 2)"
    and "cell_of facility_columns r ''City'' = Some (r ! 3)"
    and "cell_of facility_columns r ''State'' = Some (r ! 4)"
    and "cell_of facility_columns r ''Zip'' = Some (r ! 5)"
    and "cell_of facility_columns r ''Latitude'' = Some (r ! 6)"
    and "cell_of facility_columns r ''Longitude'' = Some (r ! 7)"
    and "cell_of facility_columns r ''is_substance_abuse_rehab'' = Some (r ! 8)"
    and "cell_of facility_columns r ''is_sud_rehab_clinic'' = Some (r ! 9)"
    and "cell_of facility_columns r ''source_file'' = Some (r ! 10)"
proof -
  from len11 [OF assms] obtain a0 a1 a2 a3 a4 a5 a6 a7 a8 a9 a10
    where r: "r = [a0, a1, a2, a3, a4, a5, a6, a7, a8, a9, a10]" by blast
  show "cell_of facility_columns r ''NPI'' = Some (r ! 0)"
    and "cell_of facility_columns r ''Group Name'' = Some (r ! 1)"
    and "cell_of facility_columns r ''Street Address'' = Some (r ! 2)"
    and "cell_of facility_columns r ''City'' = Some (r ! 3)"
    and "cell_of facility_columns r ''State'' = Some (r ! 4)"
    and "cell_of facility_columns r ''Zip'' = Some (r ! 5)"
    and "cell_of facility_columns r ''Latitude'' = Some (r ! 6)"
    and "cell_of facility_columns r ''Longitude'' = Some (r ! 7)"
    and "cell_of facility_columns r ''is_substance_abuse_rehab'' = Some (r ! 8)"
    and "cell_of facility_columns r ''is_sud_rehab_clinic'' = Some (r ! 9)"
    and "cell_of facility_columns r ''source_file'' = Some (r ! 10)"
    by (simp_all add: r cell_of_def facility_columns_def required_columns_def)
qed

lemma apply_row_facility:
  assumes "length r = 11"
  shows "apply_row ''Group Name'' f facility_columns r = and_then (f (r ! 1)) (\<lambda>v. Inr (r[1 := v]))"
    and "apply_row ''Street Address'' f facility_columns r = and_then (f (r ! 2)) (\<lambda>v. Inr (r[2 := v]))"
    and "apply_row ''City'' f facility_columns r = and_then (f (r ! 3)) (\<lambda>v. Inr (r[3 := v]))"
    and "apply_row ''State'' f facility_columns r = and_then (f (r ! 4)) (\<lambda>v. Inr (r[4 := v]))"
    and "apply_row ''Zip'' f facility_columns r = and_then (f (r ! 5)) (\<lambda>v. Inr (r[5 := v]))"
    and "apply_row ''is_substance_abuse_rehab'' f facility_columns r = and_then (f (r ! 8)) (\<lambda>v. Inr (r[8 := v]))"
    and "apply_row ''is_sud_rehab_clinic'' f facility_columns r = and_then (f (r ! 9)) (\<lambda>v. Inr (r[9 := v]))"
proof -
  from len11 [OF assms] obtain a0 a1 a2 a3 a4 a5 a6 a7 a8 a9 a10
    where r: "r = [a0, a1, a2, a3, a4, a5, a6, a7, a8, a9, a10]" by blast
  show "apply_row ''Group Name'' f facility_columns r = and_then (f (r ! 1)) (\<lambda>v. Inr (r[1 := v]))"
    and "apply_row ''Street Address'' f facility_columns r = and_then (f (r ! 2)) (\<lambda>v. Inr (r[2 := v]))"
    and "apply_row ''City'' f facility_columns r = and_then (f (r ! 3)) (\<lambda>v. Inr (r[3 := v]))"
    and "apply_row ''State'' f facility_columns r = and_then (f (r ! 4)) (\<lambda>v. Inr (r[4 := v]))"
    and "apply_row ''Zip'' f facility_columns r = and_then (f (r ! 5)) (\<lambda>v. Inr (r[5 := v]))"
    and "apply_row ''is_substance_abuse_rehab'' f facility_columns r = and_then (f (r ! 8)) (\<lambda>v. Inr (r[8 := v]))"
    and "apply_row ''is_sud_rehab_clinic'' f facility_columns r = and_then (f (r ! 9)) (\<lambda>v. Inr (r[9 := v]))"
    by (simp_all add: r apply_row_def facility_columns_def required_columns_def and_then_def split: sum.splits)
qed

lemma facility_columns_distinct: "distinct facility_columns"
  by (simp add: facility_columns_def required_columns_def)

lemma apply_column_total:
  assumes "facility_frame df"
  shows "apply_column ''Group Name'' (\<lambda>x. Inr (g x)) df = Inr (df\<lparr>rows := map (\<lambda>r. r[1 := g (r ! 1)]) (rows df)\<rparr>)"
    and "apply_column ''Street Address'' (\<lambda>x. Inr (g x)) df = Inr (df\<lparr>rows := map (\<lambda>r. r[2 := g (r ! 2)]) (rows df)\<rparr>)"
    and "apply_column ''City'' (\<lambda>x. Inr (g x)) df = Inr (df\<lparr>rows := map (\<lambda>r. r[3 := g (r ! 3)]) (rows df)\<rparr>)"
    and "apply_column ''State'' (\<lambda>x. Inr (g x)) df = Inr (df\<lparr>rows := map (\<lambda>r. r[4 := g (r ! 4)]) (rows df)\<rparr>)"
    and "apply_column ''is_substance_abuse_rehab'' (\<lambda>x. Inr (g x)) df = Inr (df\<lparr>rows := map (\<lambda>r. r[8 := g (r ! 8)]) (rows df)\<rparr>)"
    and "apply_column ''is_sud_rehab_clinic'' (\<lambda>x. Inr (g x)) df = Inr (df\<lparr>rows := map (\<lambda>r. r[9 := g (r ! 9)]) (rows df)\<rparr>)"
proof -
  have len: "\<And>r. r \<in> set (rows df) \<Longrightarrow> length r = 11"
    using assms by (simp add: facility_frame_def list_all_iff)
  have cols: "columns df = facility_columns"
    using assms by (simp add: facility_frame_def)
  have *: "\<And>h. (\<And>r. r \<in> set (rows df) \<Longrightarrow> apply_row c (\<lambda>x. Inr (g x)) facility_columns r = Inr (h r)) \<Longrightarrow>
      apply_column c (\<lambda>x. Inr (g x)) df = Inr (df\<lparr>rows := map h (rows df)\<rparr>)" for c
  proof -
    fix h assume a: "\<And>r. r \<in> set (rows df) \<Longrightarrow> apply_row c (\<lambda>x. Inr (g x)) facility_columns r = Inr (h r)"
    have "traverse (apply_row c (\<lambda>x. Inr (g x)) facility_columns) (rows df) = traverse (\<lambda>r. Inr (h r)) (rows df)"
      by (rule traverse_cong) (rule a)
    then show "apply_column c (\<lambda>x. Inr (g x)) df = Inr (df\<lparr>rows := map h (rows df)\<rparr>)"
      by (simp add: apply_column_def cols traverse_total)
  qed
  show "apply_column ''Group Name'' (\<lambda>x. Inr (g x)) df = Inr (df\<lparr>rows := map (\<lambda>r. r[1 := g (r ! 1)]) (rows df)\<rparr>)"
    by (rule *) (simp add: apply_row_facility len and_then_def)
  show "apply_column ''Street Address'' (\<lambda>x. Inr (g x)) df = Inr (df\<lparr>rows := map (\<lambda>r. r[2 := g (r ! 2)]) (rows df)\<rparr>)"
    by (rule *) (simp add: apply_row_facility len and_then_def)
  show "apply_column ''City'' (\<lambda>x. Inr (g x)) df = Inr (df\<lparr>rows := map (\<lambda>r. r[3 := g (r ! 3)]) (rows df)\<rparr>)"
    by (rule *) (simp add: apply_row_facility len and_then_def)
  show "apply_column ''State'' (\<lambda>x. Inr (g x)) df = Inr (df\<lparr>rows := map (\<lambda>r. r[4 := g (r ! 4)]) (rows df)\<rparr>)"
    by (rule *) (simp add: apply_row_facility len and_then_def)
  show "apply_column ''is_substance_abuse_rehab'' (\<lambda>x. Inr (g x)) df = Inr (df\<lparr>rows := map (\<lambda>r. r[8 := g (r ! 8)]) (rows df)\<rparr>)"
    by (rule *) (simp add: apply_row_facility len and_then_def)
  show "apply_column ''is_sud_rehab_clinic'' (\<lambda>x. Inr (g x)) df = Inr (df\<lparr>rows := map (\<lambda>r. r[9 := g (r ! 9)]) (rows df)\<rparr>)"
    by (rule *) (simp add: apply_row_facility len and_then_def)
qed

lemma apply_column_zip:
  assumes "facility_frame df" and "apply_column ''Zip'' f df = Inr out"
  shows "columns out = facility_columns \<and>
         list_all2 (\<lambda>r r'. \<exists>v. f (r ! 5) = Inr v \<and> r' = r[5 := v]) (rows df) (rows out)"
proof -
  have len: "\<And>r. r \<in> set (rows df) \<Longrightarrow> length r = 11"
    using assms(1) by (simp add: facility_frame_def list_all_iff)
  have cols: "columns df = facility_columns"
    using assms(1) by (simp add: facility_frame_def)
  from assms(2) obtain rs where rs: "traverse (apply_row ''Zip'' f facility_columns) (rows df) = Inr rs"
    and out: "out = df\<lparr>rows := rs\<rparr>"
    by (auto simp: apply_column_def cols split: sum.splits)
  from traverse_all2 [OF rs]
  have "list_all2 (\<lambda>r r'. apply_row ''Zip'' f facility_columns r = Inr r') (rows df) rs" .
  then have "list_all2 (\<lambda>r r'. \<exists>v. f (r ! 5) = Inr v \<and> r' = r[5 := v]) (rows df) rs"
    by (rule list.rel_mono_strong) (auto simp: apply_row_facility len and_then_Inr)
  then show ?thesis by (simp add: out cols)
qed

lemma mask_filter:
  "list_all2 (\<lambda>r a. P r = Inr a) rs as \<Longrightarrow> list_all2 (\<lambda>r b. Q r = Inr b) rs bs \<Longrightarrow>
   map fst (filter snd (zip rs (map2 (\<and>) as bs))) = filter (\<lambda>r. P r = Inr True \<and> Q r = Inr True) rs"
proof (induction rs arbitrary: as bs)
  case Nil
  then show ?case by simp
next
  case (Cons r rs)
  then obtain a as' b bs' where "as = a # as'" "bs = b # bs'"
    by (auto simp: list_all2_Cons1)
  with Cons show ?case by auto
qed

lemma facility_columns_mem:
  "''Group Name'' \<in> set facility_columns" "''Street Address'' \<in> set facility_columns"
  "''City'' \<in> set facility_columns" "''State'' \<in> set facility_columns"
  "''Zip'' \<in> set facility_columns" "''Latitude'' \<in> set facility_columns"
  "''Longitude'' \<in> set facility_columns"
  "''is_substance_abuse_rehab'' \<in> set facility_columns"
  "''is_sud_rehab_clinic'' \<in> set facility_columns"
  by (simp_all add: facility_columns_def required_columns_def)

lemma facility_frame_update:
  "facility_frame df \<Longrightarrow> facility_frame (df\<lparr>rows := map (\<lambda>r. r[k := g r]) (rows df)\<rparr>)"
  by (simp add: facility_frame_def list_all_iff)

lemma facility_frame_filter:
  "facility_frame df \<Longrightarrow> facility_frame (df\<lparr>rows := filter P (rows df)\<rparr>)"
  by (simp add: facility_frame_def list_all_iff)

lemma all2_map_eq: "list_all2 (\<lambda>x y. g y = h x) xs ys \<Longrightarrow> map g ys = map h xs"
  by (induction xs ys rule: list_all2_induct) auto

lemma select_columns_facility:
  assumes "select_columns required_columns df = Inr selected"
  shows "add_column ''source_file'' (CStr name) selected =
           \<lparr>columns = facility_columns, rows = map (facility_of (columns df) name) (rows df)\<rparr>"
    and "list_all (\<lambda>r. list_all (\<lambda>n. cell_of (columns df) r n \<noteq> None) required_columns) (rows df)"
proof -
  from assms obtain rs where rs: "traverse (select_row required_columns (columns df)) (rows df) = Inr rs"
    and sel: "selected = \<lparr>columns = required_columns, rows = rs\<rparr>"
    by (auto simp: select_columns_def split: sum.splits)
  have all2: "list_all2 (\<lambda>r r1. select_row required_columns (columns df) r = Inr r1) (rows df) rs"
    by (rule traverse_all2 [OF rs])
  then have "list_all2 (\<lambda>r r1. r1 @ [CStr name] = facility_of (columns df) name r) (rows df) rs"
    by (rule list_all2_mono) (rule select_row_required)
  then have "map (\<lambda>r1. r1 @ [CStr name]) rs = map (facility_of (columns df) name) (rows df)"
    by (rule all2_map_eq)
  then show "add_column ''source_file'' (CStr name) selected =
           \<lparr>columns = facility_columns, rows = map (facility_of (columns df) name) (rows df)\<rparr>"
    by (simp add: add_column_def sel facility_columns_def)
  have "\<And>r. r \<in> set (rows df) \<Longrightarrow> list_all (\<lambda>n. cell_of (columns df) r n \<noteq> None) required_columns"
  proof -
    fix r assume "r \<in> set (rows df)"
    with all2 obtain r1 where "select_row required_columns (columns df) r = Inr r1"
      by (auto simp: list_all2_conv_all_nth in_set_conv_nth)
    then show "list_all (\<lambda>n. cell_of (columns df) r n \<noteq> None) required_columns"
      by (rule select_row_required)
  qed
  then show "list_all (\<lambda>r. list_all (\<lambda>n. cell_of (columns df) r n \<noteq> None) required_columns) (rows df)"
    by (simp add: list_all_iff)
qed

lemma dropna_facility:
  assumes "facility_frame df"
  shows "dropna [''Group Name'', ''Latitude'', ''Longitude''] df =
           Inr (df\<lparr>rows := filter (\<lambda>r. \<not> isna (r ! 1) \<and> \<not> isna (r ! 6) \<and> \<not> isna (r ! 7)) (rows df)\<rparr>)"
proof -
  have len: "\<And>r. r \<in> set (rows df) \<Longrightarrow> length r = 11"
    using assms by (simp add: facility_frame_def list_all_iff)
  have cols: "columns df = facility_columns"
    using assms by (simp add: facility_frame_def)
  have "filter (\<lambda>r. list_all (\<lambda>n. case cell_of facility_columns r n of None \<Rightarrow> True | Some v \<Rightarrow> \<not> isna v)
            [''Group Name'', ''Latitude'', ''Longitude'']) (rows df) =
        filter (\<lambda>r. \<not> isna (r ! 1) \<and> \<not> isna (r ! 6) \<and> \<not> isna (r ! 7)) (rows df)"
    by (rule filter_cong) (simp_all add: cell_of_facility len)
  then show ?thesis
    by (simp add: dropna_def cols facility_columns_mem)
qed

lemma column_values_facility:
  assumes "facility_frame df"
  shows "column_values ''Latitude'' df = Inr (map (\<lambda>r. r ! 6) (rows df))"
    and "column_values ''Longitude'' df = Inr (map (\<lambda>r. r ! 7) (rows df))"
proof -
  have len: "\<And>r. r \<in> set (rows df) \<Longrightarrow> length r = 11"
    using assms by (simp add: facility_frame_def list_all_iff)
  have cols: "columns df = facility_columns"
    using assms by (simp add: facility_frame_def)
  have "traverse (\<lambda>r. case cell_of facility_columns r ''Latitude'' of None \<Rightarrow> Inl (KeyError ''Latitude'') | Some v \<Rightarrow> Inr v) (rows df)
        = traverse (\<lambda>r. Inr (r ! 6)) (rows df)"
    by (rule traverse_cong) (simp add: cell_of_facility len)
  then show "column_values ''Latitude'' df = Inr (map (\<lambda>r. r ! 6) (rows df))"
    by (simp add: column_values_def cols traverse_total)
  have "traverse (\<lambda>r. case cell_of facility_columns r ''Longitude'' of None \<Rightarrow> Inl (KeyError ''Longitude'') | Some v \<Rightarrow> Inr v) (rows df)
        = traverse (\<lambda>r. Inr (r ! 7)) (rows df)"
    by (rule traverse_cong) (simp add: cell_of_facility len)
  then show "column_values ''Longitude'' df = Inr (map (\<lambda>r. r ! 7) (rows df))"
    by (simp add: column_values_def cols traverse_total)
qed

lemma text_columns_facility:
  assumes "facility_frame df"
  shows "for_columns [''Group Name'', ''Street Address'', ''City'', ''State''] (clean_text lib) df =
     Inr (df\<lparr>rows := map (\<lambda>r. r[1 := CStr (py_strip (py_str lib (r ! 1))),
                                    2 := CStr (py_strip (py_str lib (r ! 2))),
                                    3 := CStr (py_strip (py_str lib (r ! 3))),
                                    4 := CStr (py_strip (py_str lib (r ! 4)))]) (rows df)\<rparr>)"
proof -
  let ?t = "\<lambda>x. CStr (py_strip (py_str lib x))"
  have ct: "clean_text lib = (\<lambda>x. Inr (?t x))"
    by (rule ext) (simp add: clean_text_def)
  let ?d1 = "df\<lparr>rows := map (\<lambda>r. r[1 := ?t (r ! 1)]) (rows df)\<rparr>"
  let ?d2 = "?d1\<lparr>rows := map (\<lambda>r. r[2 := ?t (r ! 2)]) (rows ?d1)\<rparr>"
  let ?d3 = "?d2\<lparr>rows := map (\<lambda>r. r[3 := ?t (r ! 3)]) (rows ?d2)\<rparr>"
  let ?d4 = "?d3\<lparr>rows := map (\<lambda>r. r[4 := ?t (r ! 4)]) (rows ?d3)\<rparr>"
  have f1: "facility_frame ?d1" by (rule facility_frame_update [OF assms])
  have f2: "facility_frame ?d2" by (rule facility_frame_update [OF f1])
  have f3: "facility_frame ?d3" by (rule facility_frame_update [OF f2])
  have c0: "columns df = facility_columns" using assms by (simp add: facility_frame_def)
  have s1: "apply_column ''Group Name'' (clean_text lib) df = Inr ?d1"
    unfolding ct by (rule apply_column_total [OF assms])
  have s2: "apply_column ''Street Address'' (clean_text lib) ?d1 = Inr ?d2"
    unfolding ct by (rule apply_column_total [OF f1])
  have s3: "apply_column ''City'' (clean_text lib) ?d2 = Inr ?d3"
    unfolding ct by (rule apply_column_total [OF f2])
  have s4: "apply_column ''State'' (clean_text lib) ?d3 = Inr ?d4"
    unfolding ct by (rule apply_column_total [OF f3])
  have "for_columns [''Group Name'', ''Street Address'', ''City'', ''State''] (clean_text lib) df = Inr ?d4"
    using s1 s2 s3 s4 by (simp add: c0 facility_columns_mem and_then_def)
  also have "?d4 = df\<lparr>rows := map (\<lambda>r. r[1 := ?t (r ! 1), 2 := ?t (r ! 2), 3 := ?t (r ! 3), 4 := ?t (r ! 4)]) (rows df)\<rparr>"
    by (simp add: comp_def)
  finally show ?thesis .
qed

lemma flag_columns_facility:
  assumes "facility_frame df"
  shows "for_columns [''is_substance_abuse_rehab'', ''is_sud_rehab_clinic''] clean_flag df =
     Inr (df\<lparr>rows := map (\<lambda>r. r[8 := CStr (normalize_flag (r ! 8)),
                                    9 := CStr (normalize_flag (r ! 9))]) (rows df)\<rparr>)"
proof -
  let ?t = "\<lambda>x. CStr (normalize_flag x)"
  have ct: "clean_flag = (\<lambda>x. Inr (?t x))"
    by (rule ext) (simp add: clean_flag_def)
  let ?d1 = "df\<lparr>rows := map (\<lambda>r. r[8 := ?t (r ! 8)]) (rows df)\<rparr>"
  let ?d2 = "?d1\<lparr>rows := map (\<lambda>r. r[9 := ?t (r ! 9)]) (rows ?d1)\<rparr>"
  have f1: "facility_frame ?d1" by (rule facility_frame_update [OF assms])
  have c0: "columns df = facility_columns" using assms by (simp add: facility_frame_def)
  have s1: "apply_column ''is_substance_abuse_rehab'' clean_flag df = Inr ?d1"
    unfolding ct by (rule apply_column_total [OF assms])
  have s2: "apply_column ''is_sud_rehab_clinic'' clean_flag ?d1 = Inr ?d2"
    unfolding ct by (rule apply_column_total [OF f1])
  have "for_columns [''is_substance_abuse_rehab'', ''is_sud_rehab_clinic''] clean_flag df = Inr ?d2"
    using s1 s2 by (simp add: c0 facility_columns_mem and_then_def)
  also have "?d2 = df\<lparr>rows := map (\<lambda>r. r[8 := ?t (r ! 8), 9 := ?t (r ! 9)]) (rows df)\<rparr>"
    by (simp add: comp_def)
  finally show ?thesis .
qed

lemma all2_update_length:
  "list_all2 (\<lambda>r r'. \<exists>v. P r v \<and> r' = r[k := v]) xs ys \<Longrightarrow>
   list_all (\<lambda>r. length r = n) xs \<Longrightarrow> list_all (\<lambda>r. length r = n) ys"
  by (induction xs ys rule: list_all2_induct) auto

lemma clean_facility_df_rows:
  assumes "clean_facility_df lib name df = Inr out"
  shows "columns out = facility_columns"
    and "list_all2 (cleaned lib) (filter valid_row (map (facility_of (columns df) name) (rows df))) (rows out)"
    and "list_all (\<lambda>r. list_all (\<lambda>n. cell_of (columns df) r n \<noteq> None) required_columns) (rows df)"
proof -
  let ?A = "\<lparr>columns = facility_columns, rows = map (facility_of (columns df) name) (rows df)\<rparr>"
  let ?notna = "\<lambda>r. \<not> isna (r ! 1) \<and> \<not> isna (r ! 6) \<and> \<not> isna (r ! 7)"
  let ?P = "?A\<lparr>rows := filter ?notna (rows ?A)\<rparr>"
  let ?t = "\<lambda>x. CStr (py_strip (py_str lib x))"
  from assms obtain selected present lats lat_ok lons lon_ok trimmed zipped where
    sel: "select_columns required_columns df = Inr selected" and
    pre: "dropna [''Group Name'', ''Latitude'', ''Longitude''] (add_column ''source_file'' (CStr name) selected) = Inr present" and
    lats: "column_values ''Latitude'' present = Inr lats" and
    lat_ok: "traverse (between (- 90) 90) lats = Inr lat_ok" and
    lons: "column_values ''Longitude'' present = Inr lons" and
    lon_ok: "traverse (between (- 180) 180) lons = Inr lon_ok" and
    tri: "for_columns [''Group Name'', ''Street Address'', ''City'', ''State''] (clean_text lib)
            (filter_mask (map2 (\<and>) lat_ok lon_ok) present) = Inr trimmed" and
    zi: "for_columns [''Zip''] (clean_zip lib) trimmed = Inr zipped" and
    fl: "for_columns [''is_substance_abuse_rehab'', ''is_sud_rehab_clinic''] clean_flag zipped = Inr out"
    unfolding clean_facility_df_def and_then_Inr by blast
  have fA: "facility_frame ?A"
    by (simp add: facility_frame_def list_all_iff length_facility_of)
  from select_columns_facility [OF sel]
  have add: "add_column ''source_file'' (CStr name) selected = ?A"
    and found: "list_all (\<lambda>r. list_all (\<lambda>n. cell_of (columns df) r n \<noteq> None) required_columns) (rows df)"
    by blast+
  have present: "present = ?P"
    using pre unfolding add dropna_facility [OF fA] by simp
  have fP: "facility_frame ?P" by (rule facility_frame_filter [OF fA])
  have "lats = map (\<lambda>r. r ! 6) (rows ?P)"
    using lats unfolding present column_values_facility [OF fP] by simp
  with traverse_all2 [OF lat_ok]
  have m1: "list_all2 (\<lambda>r a. between (- 90) 90 (r ! 6) = Inr a) (rows ?P) lat_ok"
    by (simp add: list_all2_map1)
  have "lons = map (\<lambda>r. r ! 7) (rows ?P)"
    using lons unfolding present column_values_facility [OF fP] by simp
  with traverse_all2 [OF lon_ok]
  have m2: "list_all2 (\<lambda>r a. between (- 180) 180 (r ! 7) = Inr a) (rows ?P) lon_ok"
    by (simp add: list_all2_map1)
  let ?V = "?A\<lparr>rows := filter valid_row (rows ?A)\<rparr>"
  have "filter_mask (map2 (\<and>) lat_ok lon_ok) present =
          ?P\<lparr>rows := filter (\<lambda>r. between (- 90) 90 (r ! 6) = Inr True \<and> between (- 180) 180 (r ! 7) = Inr True) (rows ?P)\<rparr>"
    unfolding filter_mask_def present mask_filter [OF m1 m2] ..
  also have "\<dots> = ?V"
    by (simp add: valid_row_def [abs_def])
  finally have masked: "filter_mask (map2 (\<and>) lat_ok lon_ok) present = ?V" .
  have fV: "facility_frame ?V" by (rule facility_frame_filter [OF fA])
  let ?T = "?V\<lparr>rows := map (\<lambda>r. r[1 := ?t (r ! 1), 2 := ?t (r ! 2), 3 := ?t (r ! 3), 4 := ?t (r ! 4)]) (rows ?V)\<rparr>"
  have trimmed: "trimmed = ?T"
    using tri unfolding masked text_columns_facility [OF fV] by simp
  have fT: "facility_frame ?T"
    using fV by (simp add: facility_frame_def list_all_iff)
  have "apply_column ''Zip'' (clean_zip lib) ?T = Inr zipped"
    using zi unfolding trimmed by (simp add: facility_columns_mem and_then_def split: sum.splits)
  from apply_column_zip [OF fT this]
  have cz: "columns zipped = facility_columns"
    and rz: "list_all2 (\<lambda>r r'. \<exists>v. clean_zip lib (r ! 5) = Inr v \<and> r' = r[5 := v]) (rows ?T) (rows zipped)"
    by blast+
  have fZ: "facility_frame zipped"
    using all2_update_length [OF rz, of 11] fT cz by (simp add: facility_frame_def)
  have out: "out = zipped\<lparr>rows := map (\<lambda>r. r[8 := CStr (normalize_flag (r ! 8)), 9 := CStr (normalize_flag (r ! 9))]) (rows zipped)\<rparr>"
    using fl unfolding flag_columns_facility [OF fZ] by simp
  show "columns out = facility_columns"
    by (simp add: out cz)
  have "list_all2 (\<lambda>r r'. \<exists>v. clean_zip lib (r ! 5) = Inr v \<and> r' = r[5 := v])
          (map (\<lambda>r. r[1 := ?t (r ! 1), 2 := ?t (r ! 2), 3 := ?t (r ! 3), 4 := ?t (r ! 4)]) (filter valid_row (rows ?A)))
          (rows zipped)"
    using rz by simp
  then have "list_all2 (\<lambda>r r'. \<exists>v. clean_zip lib (r[1 := ?t (r ! 1), 2 := ?t (r ! 2), 3 := ?t (r ! 3), 4 := ?t (r ! 4)] ! 5) = Inr v \<and>
                 r' = r[1 := ?t (r ! 1), 2 := ?t (r ! 2), 3 := ?t (r ! 3), 4 := ?t (r ! 4), 5 := v])
          (filter valid_row (rows ?A)) (rows zipped)"
    by (simp add: list_all2_map1)
  then have "list_all2 (\<lambda>r r'. cleaned lib r (r'[8 := CStr (normalize_flag (r' ! 8)), 9 := CStr (normalize_flag (r' ! 9))]))
          (filter valid_row (rows ?A)) (rows zipped)"
  proof (rule list.rel_mono_strong)
    fix r r'
    assume "r \<in> set (filter valid_row (rows ?A))"
      and h: "\<exists>v. clean_zip lib (r[1 := ?t (r ! 1), 2 := ?t (r ! 2), 3 := ?t (r ! 3), 4 := ?t (r ! 4)] ! 5) = Inr v \<and>
                 r' = r[1 := ?t (r ! 1), 2 := ?t (r ! 2), 3 := ?t (r ! 3), 4 := ?t (r ! 4), 5 := v]"
    then have "length r = 11" by (auto simp: length_facility_of)
    from len11 [OF this] obtain a0 a1 a2 a3 a4 a5 a6 a7 a8 a9 a10
      where r: "r = [a0, a1, a2, a3, a4, a5, a6, a7, a8, a9, a10]" by blast
    from h show "cleaned lib r (r'[8 := CStr (normalize_flag (r' ! 8)), 9 := CStr (normalize_flag (r' ! 9))])"
      by (auto simp: r cleaned_def clean_zip_def and_then_Inr)
  qed
  then show "list_all2 (cleaned lib) (filter valid_row (map (facility_of (columns df) name) (rows df))) (rows out)"
    by (simp add: out list_all2_map2)
  show "list_all (\<lambda>r. list_all (\<lambda>n. cell_of (columns df) r n \<noteq> None) required_columns) (rows df)"
    by (rule found)
qed

section \<open>What one file contributes\<close>

lemma between_in_range: "between lo hi c = Inr True \<longleftrightarrow> in_range lo hi c"
proof (cases c)
  case (CFloat f)
  then show ?thesis by (cases f) (simp_all add: in_range_def)
qed (auto simp: in_range_def)

lemma in_range_notna: "in_range lo hi c \<Longrightarrow> \<not> isna c"
  by (auto simp: in_range_def isna_def)

lemma facility_of_nth:
  "facility_of cols name r ! 0 = (case cell_of cols r ''NPI'' of None \<Rightarrow> CFloat NaN | Some v \<Rightarrow> v)"
  "facility_of cols name r ! 1 = (case cell_of cols r ''Group Name'' of None \<Rightarrow> CFloat NaN | Some v \<Rightarrow> v)"
  "facility_of cols name r ! 2 = (case cell_of cols r ''Street Address'' of None \<Rightarrow> CFloat NaN | Some v \<Rightarrow> v)"
  "facility_of cols name r ! 3 = (case cell_of cols r ''City'' of None \<Rightarrow> CFloat NaN | Some v \<Rightarrow> v)"
  "facility_of cols name r ! 4 = (case cell_of cols r ''State'' of None \<Rightarrow> CFloat NaN | Some v \<Rightarrow> v)"
  "facility_of cols name r ! 5 = (case cell_of cols r ''Zip'' of None \<Rightarrow> CFloat NaN | Some v \<Rightarrow> v)"
  "facility_of cols name r ! 6 = (case cell_of cols r ''Latitude'' of None \<Rightarrow> CFloat NaN | Some v \<Rightarrow> v)"
  "facility_of cols name r ! 7 = (case cell_of cols r ''Longitude'' of None \<Rightarrow> CFloat NaN | Some v \<Rightarrow> v)"
  "facility_of cols name r ! 8 = (case cell_of cols r ''is_substance_abuse_rehab'' of None \<Rightarrow> CFloat NaN | Some v \<Rightarrow> v)"
  "facility_of cols name r ! 9 = (case cell_of cols r ''is_sud_rehab_clinic'' of None \<Rightarrow> CFloat NaN | Some v \<Rightarrow> v)"
  "facility_of cols name r ! 10 = CStr name"
  by (simp_all add: facility_of_def required_columns_def)

lemma valid_row_retained: "valid_row (facility_of cols name r) = retained cols r"
proof -
  have nan: "\<not> in_range lo hi (CFloat NaN)" for lo hi by (simp add: in_range_def)
  show ?thesis
    unfolding valid_row_def retained_def between_in_range facility_of_nth
    using in_range_notna by (auto simp: isna_def nan split: option.splits)
qed

lemma cleaned_cells:
  assumes "cleaned lib r r'"
  shows "cell_of facility_columns r' ''Group Name'' = Some (CStr (py_strip (py_str lib (r ! 1))))"
    and "cell_of facility_columns r' ''Latitude'' = Some (r ! 6)"
    and "cell_of facility_columns r' ''Longitude'' = Some (r ! 7)"
    and "cell_of facility_columns r' ''is_substance_abuse_rehab'' = Some (CStr (normalize_flag (r ! 8)))"
    and "cell_of facility_columns r' ''is_sud_rehab_clinic'' = Some (CStr (normalize_flag (r ! 9)))"
    and "\<exists>z. zip_lambda lib (py_strip (py_str lib (r ! 5))) = Inr z \<and>
           cell_of facility_columns r' ''Zip'' = Some (CStr z)"
proof -
  from assms have len: "length r' = 11" by (auto simp: cleaned_def)
  from assms show "cell_of facility_columns r' ''Group Name'' = Some (CStr (py_strip (py_str lib (r ! 1))))"
    unfolding cell_of_facility [OF len] by (auto simp: cleaned_def)
  from assms show "cell_of facility_columns r' ''Latitude'' = Some (r ! 6)"
    unfolding cell_of_facility [OF len] by (auto simp: cleaned_def)
  from assms show "cell_of facility_columns r' ''Longitude'' = Some (r ! 7)"
    unfolding cell_of_facility [OF len] by (auto simp: cleaned_def)
  from assms show "cell_of facility_columns r' ''is_substance_abuse_rehab'' = Some (CStr (normalize_flag (r ! 8)))"
    unfolding cell_of_facility [OF len] by (auto simp: cleaned_def)
  from assms show "cell_of facility_columns r' ''is_sud_rehab_clinic'' = Some (CStr (normalize_flag (r ! 9)))"
    unfolding cell_of_facility [OF len] by (auto simp: cleaned_def)
  from assms show "\<exists>z. zip_lambda lib (py_strip (py_str lib (r ! 5))) = Inr z \<and>
           cell_of facility_columns r' ''Zip'' = Some (CStr z)"
    unfolding cell_of_facility [OF len] by (auto simp: cleaned_def)
qed

lemma process_file_Inr:
  assumes "process_file lib name content = Inr out"
  shows "\<exists>df. content = Inr df \<and> set required_columns \<subseteq> set (columns df) \<and>
           clean_facility_df lib name df = Inr out"
  using assms
  by (auto simp: process_file_def Let_def filter_empty_conv split: sum.splits if_splits)

text \<open>
  The rows of a processed file are the retained rows of the source, in order, each cleaned.
\<close>

lemma process_file_rows:
  assumes "process_file lib name (Inr df) = Inr out"
  shows "columns out = facility_columns"
    and "list_all2 (\<lambda>r r'. cleaned lib (facility_of (columns df) name r) r')
           (filter (retained (columns df)) (rows df)) (rows out)"
    and "\<And>r n. r \<in> set (rows df) \<Longrightarrow> n \<in> set required_columns \<Longrightarrow> cell_of (columns df) r n \<noteq> None"
proof -
  from process_file_Inr [OF assms] have c: "clean_facility_df lib name df = Inr out" by simp
  show "columns out = facility_columns" by (rule clean_facility_df_rows(1) [OF c])
  have "filter valid_row (map (facility_of (columns df) name) (rows df)) =
        map (facility_of (columns df) name) (filter (retained (columns df)) (rows df))"
    by (simp add: filter_map comp_def valid_row_retained)
  with clean_facility_df_rows(2) [OF c]
  show "list_all2 (\<lambda>r r'. cleaned lib (facility_of (columns df) name r) r')
           (filter (retained (columns df)) (rows df)) (rows out)"
    by (simp add: list_all2_map1)
  show "\<And>r n. r \<in> set (rows df) \<Longrightarrow> n \<in> set required_columns \<Longrightarrow> cell_of (columns df) r n \<noteq> None"
    using clean_facility_df_rows(3) [OF c] by (simp add: list_all_iff)
qed

section \<open>The loop over the files\<close>

lemma load_loop_outcomes:
  "load_loop lib files (cs, ns) = (cs @ rights (outcomes lib files), ns @ lefts (outcomes lib files))"
proof (induction files arbitrary: cs ns)
  case Nil
  show ?case by (simp add: outcomes_def)
next
  case (Cons f files)
  obtain name content where f: "f = (name, content)" by (cases f)
  show ?case
    using Cons.IH by (cases "process_file lib name content") (simp_all add: f outcomes_def)
qed

lemma outcomes_append: "outcomes lib (xs @ ys) = outcomes lib xs @ outcomes lib ys"
  by (simp add: outcomes_def)

lemma rights_append: "rights (xs @ ys) = rights xs @ rights ys"
  by (induction xs rule: rights.induct) simp_all

lemma lefts_append: "lefts (xs @ ys) = lefts xs @ lefts ys"
  by (induction xs rule: lefts.induct) simp_all

lemma rows_pd_concat: "rows (pd_concat frames) = concat (map rows frames)"
  by (simp add: pd_concat_def)

lemma loaded_rows_eq:
  "loaded_rows (load_facility_data lib \<lparr>dir_exists = True, csv_files = files\<rparr>) =
     concat (map rows (rights (outcomes lib files)))"
  by (cases files) (simp_all add: loaded_rows_def load_facility_data_def load_loop_outcomes
      rows_pd_concat outcomes_def)

lemma rights_processed:
  "df \<in> set (rights (outcomes lib files)) \<Longrightarrow>
   \<exists>name content. (name, content) \<in> set files \<and> process_file lib name content = Inr df"
proof (induction files)
  case Nil
  then show ?case by (simp add: outcomes_def)
next
  case (Cons f files)
  obtain name content where f: "f = (name, content)" by (cases f)
  show ?case
  proof (cases "process_file lib name content")
    case (Inl n)
    with Cons show ?thesis by (auto simp: f outcomes_def)
  next
    case (Inr d)
    with Cons show ?thesis by (auto simp: f outcomes_def)
  qed
qed

lemma load_Some:
  assumes "load_facility_data lib dir = (Some out, notes)"
  shows "out = pd_concat (rights (outcomes lib (csv_files dir)))"
    and "rights (outcomes lib (csv_files dir)) \<noteq> []"
    and "notes = lefts (outcomes lib (csv_files dir))"
  using assms
  by (auto simp: load_facility_data_def load_loop_outcomes split: if_splits)

lemma load_columns:
  assumes "load_facility_data lib dir = (Some out, notes)"
  shows "columns out = facility_columns"
proof -
  from load_Some [OF assms] obtain d ds where ds: "rights (outcomes lib (csv_files dir)) = d # ds"
    and out: "out = pd_concat (d # ds)"
    by (cases "rights (outcomes lib (csv_files dir))") auto
  have "d \<in> set (rights (outcomes lib (csv_files dir)))" by (simp add: ds)
  from rights_processed [OF this] obtain name content
    where p: "process_file lib name content = Inr d" by blast
  from process_file_Inr [OF p] obtain df where "content = Inr df" by blast
  with p have "columns d = facility_columns" by (simp add: process_file_rows(1))
  then show ?thesis by (simp add: out pd_concat_def)
qed

section \<open>The example files, evaluated\<close>

lemmas loader_defs = process_file_def required_columns_def clean_facility_df_def
  and_then_def select_columns_def select_row_def cell_of_def add_column_def dropna_def column_values_def
  filter_mask_def apply_column_def apply_row_def clean_text_def clean_zip_def zip_lambda_def clean_flag_def
  normalize_flag_def is_True_def is_False_def isna_def py_strip_def is_space_def
  show_int_def digits.simps digit_char_def Let_def suffix_to_prefix

lemmas whole_numbers_defs = whole_numbers_def whole_str_def whole_parse_def digits_value_def

lemma clinics_processed: "process_file whole_numbers ''a.csv'' (Inr clinics) = Inr clinics_cleaned"
  by (simp add: clinics_def clinic_row_def clinics_cleaned_def cleaned_row_def loader_defs
      whole_numbers_defs)

lemma traverse_replicate:
  "traverse f (replicate n x) =
     (case f x of Inl e \<Rightarrow> if n = 0 then Inr [] else Inl e | Inr y \<Rightarrow> Inr (replicate n y))"
  by (induction n) (simp_all split: sum.splits)

lemma plain_processed: "process_file lib name (Inr (plain_file n)) = Inr (plain_loaded name n)"
  by (simp add: plain_file_def plain_loaded_def loader_defs traverse_replicate filter_replicate
      zip_replicate)

section \<open>Properties of the loader\<close>

lemma normalize_flag_num:
  "normalize_flag x =
     (if num_of x = Some (Fin 1) then ''True'' else if num_of x = Some (Fin 0) then ''False'' else ''N/A'')"
proof (cases x)
  case (CBool b)
  then show ?thesis by (cases b) (simp_all add: normalize_flag_def is_True_def is_False_def)
next
  case (CInt i)
  then show ?thesis by (simp add: normalize_flag_def is_True_def is_False_def)
next
  case (CFloat f)
  then show ?thesis by (cases f) (simp_all add: normalize_flag_def is_True_def is_False_def)
next
  case (CStr s)
  then show ?thesis by (simp add: normalize_flag_def is_True_def is_False_def)
qed

lemma retained_found:
  assumes "retained cols r"
  shows "\<exists>nm la lo. cell_of cols r ''Group Name'' = Some nm \<and> cell_of cols r ''Latitude'' = Some la \<and>
           cell_of cols r ''Longitude'' = Some lo \<and> in_range (- 90) 90 la \<and> in_range (- 180) 180 lo"
  using assms by (auto simp: retained_def split: option.splits)

text \<open>
  C1. The loader's normalization of a classification flag maps the literal true and the number
  1 to the first of its three values, the literal false and the number 0 to the second, and
  every other value, a missing one included, to the third; the code writes the three values
  as the strings \<^verbatim>\<open>'True'\<close>, \<^verbatim>\<open>'False'\<close> and \<^verbatim>\<open>'N/A'\<close>. This holds on the
  value domain True, False, 1, 0, 1.0, 0.0, the empty string, the missing value and
  \<^verbatim>\<open>"maybe"\<close>, and for every value it is decided by the numeric value alone. In a
  processed file both flag columns of every retained row hold the normalization of the
  source row's flags.
\<close>

theorem flag_normalization:
  "(process_file lib name (Inr df) = Inr out \<longrightarrow>
      list_all2 (\<lambda>r r'.
          cell_of (columns out) r' ''is_substance_abuse_rehab'' =
            map_option (\<lambda>x. CStr (normalize_flag x)) (cell_of (columns df) r ''is_substance_abuse_rehab'') \<and>
          cell_of (columns out) r' ''is_sud_rehab_clinic'' =
            map_option (\<lambda>x. CStr (normalize_flag x)) (cell_of (columns df) r ''is_sud_rehab_clinic''))
        (filter (retained (columns df)) (rows df)) (rows out)) \<and>
   normalize_flag (CBool True) = ''True'' \<and> normalize_flag (CInt 1) = ''True'' \<and>
   normalize_flag (CFloat (Fin 1)) = ''True'' \<and>
   normalize_flag (CBool False) = ''False'' \<and> normalize_flag (CInt 0) = ''False'' \<and>
   normalize_flag (CFloat (Fin 0)) = ''False'' \<and>
   normalize_flag (CStr '''') = ''N/A'' \<and> normalize_flag (CFloat NaN) = ''N/A'' \<and>
   normalize_flag (CStr ''maybe'') = ''N/A'' \<and>
   normalize_flag x =
     (if num_of x = Some (Fin 1) then ''True'' else if num_of x = Some (Fin 0) then ''False'' else ''N/A'')"
proof -
  have rows: "list_all2 (\<lambda>r r'.
          cell_of (columns out) r' ''is_substance_abuse_rehab'' =
            map_option (\<lambda>x. CStr (normalize_flag x)) (cell_of (columns df) r ''is_substance_abuse_rehab'') \<and>
          cell_of (columns out) r' ''is_sud_rehab_clinic'' =
            map_option (\<lambda>x. CStr (normalize_flag x)) (cell_of (columns df) r ''is_sud_rehab_clinic''))
        (filter (retained (columns df)) (rows df)) (rows out)"
    if p: "process_file lib name (Inr df) = Inr out"
  proof -
    note cols = process_file_rows(1) [OF p]
    have found: "cell_of (columns df) r n \<noteq> None" if "r \<in> set (rows df)" "n \<in> set required_columns" for r n
      using process_file_rows(3) [OF p] that by blast
    show ?thesis
    proof (rule list.rel_mono_strong [OF process_file_rows(2) [OF p]])
      fix r r'
      assume r: "r \<in> set (filter (retained (columns df)) (rows df))"
        and c: "cleaned lib (facility_of (columns df) name r) r'"
      from r have "r \<in> set (rows df)" by simp
      then obtain f1 f2 where f: "cell_of (columns df) r ''is_substance_abuse_rehab'' = Some f1"
        "cell_of (columns df) r ''is_sud_rehab_clinic'' = Some f2"
        using found [of r "''is_substance_abuse_rehab''"] found [of r "''is_sud_rehab_clinic''"]
        by (auto simp: required_columns_def)
      show "cell_of (columns out) r' ''is_substance_abuse_rehab'' =
            map_option (\<lambda>x. CStr (normalize_flag x)) (cell_of (columns df) r ''is_substance_abuse_rehab'') \<and>
          cell_of (columns out) r' ''is_sud_rehab_clinic'' =
            map_option (\<lambda>x. CStr (normalize_flag x)) (cell_of (columns df) r ''is_sud_rehab_clinic'')"
        unfolding cols cleaned_cells(4,5) [OF c] by (simp add: f facility_of_nth)
    qed
  qed
  have vals: "normalize_flag (CBool True) = ''True''" "normalize_flag (CInt 1) = ''True''"
    "normalize_flag (CFloat (Fin 1)) = ''True''"
    "normalize_flag (CBool False) = ''False''" "normalize_flag (CInt 0) = ''False''"
    "normalize_flag (CFloat (Fin 0)) = ''False''"
    "normalize_flag (CStr '''') = ''N/A''" "normalize_flag (CFloat NaN) = ''N/A''"
    "normalize_flag (CStr ''maybe'') = ''N/A''"
    by (simp_all add: normalize_flag_num)
  show ?thesis
    using rows vals normalize_flag_num [of x] by blast
qed

theorem flag_normalization_witness:
  "process_file whole_numbers ''a.csv'' (Inr clinics) = Inr clinics_cleaned \<and>
   list_all2 (\<lambda>r r'.
       cell_of (columns clinics_cleaned) r' ''is_substance_abuse_rehab'' =
         map_option (\<lambda>x. CStr (normalize_flag x)) (cell_of (columns clinics) r ''is_substance_abuse_rehab'') \<and>
       cell_of (columns clinics_cleaned) r' ''is_sud_rehab_clinic'' =
         map_option (\<lambda>x. CStr (normalize_flag x)) (cell_of (columns clinics) r ''is_sud_rehab_clinic''))
     (filter (retained (columns clinics)) (rows clinics)) (rows clinics_cleaned)"
  using flag_normalization [of whole_numbers "''a.csv''" clinics clinics_cleaned, THEN conjunct1]
    clinics_processed
  by blast

text \<open>
  C3. Every record of the loader's output has a name, which is a string, and a latitude and
  a longitude that are numbers within \<open>[-90, 90]\<close> and \<open>[-180, 180]\<close>. The records of
  a processed file are, in order, those of the retained source rows with their coordinates
  unchanged, so a source row whose coordinates are missing or out of range has no record.
\<close>

theorem loaded_records_valid:
  "(process_file lib name (Inr df) = Inr out \<longrightarrow>
      list_all (valid_facility (columns out)) (rows out) \<and>
      list_all2 (\<lambda>r r'.
          cell_of (columns out) r' ''Latitude'' = cell_of (columns df) r ''Latitude'' \<and>
          cell_of (columns out) r' ''Longitude'' = cell_of (columns df) r ''Longitude'')
        (filter (retained (columns df)) (rows df)) (rows out)) \<and>
   (load_facility_data lib dir = (Some loaded, notes) \<longrightarrow>
      list_all (valid_facility (columns loaded)) (rows loaded))"
proof -
  have per_file: "list_all (valid_facility (columns out)) (rows out) \<and>
      list_all2 (\<lambda>r r'.
          cell_of (columns out) r' ''Latitude'' = cell_of (columns df) r ''Latitude'' \<and>
          cell_of (columns out) r' ''Longitude'' = cell_of (columns df) r ''Longitude'')
        (filter (retained (columns df)) (rows df)) (rows out)"
    if p: "process_file lib name (Inr df) = Inr out" for name df out
  proof -
    note cols = process_file_rows(1) [OF p]
    let ?R = "\<lambda>r r'. valid_facility facility_columns r' \<and>
          cell_of facility_columns r' ''Latitude'' = cell_of (columns df) r ''Latitude'' \<and>
          cell_of facility_columns r' ''Longitude'' = cell_of (columns df) r ''Longitude''"
    have all2: "list_all2 ?R (filter (retained (columns df)) (rows df)) (rows out)"
    proof (rule list.rel_mono_strong [OF process_file_rows(2) [OF p]])
      fix r r'
      assume r: "r \<in> set (filter (retained (columns df)) (rows df))"
        and c: "cleaned lib (facility_of (columns df) name r) r'"
      from r have "retained (columns df) r" by simp
      from retained_found [OF this] obtain nm la lo where
        f: "cell_of (columns df) r ''Group Name'' = Some nm" "cell_of (columns df) r ''Latitude'' = Some la"
           "cell_of (columns df) r ''Longitude'' = Some lo" "in_range (- 90) 90 la" "in_range (- 180) 180 lo"
        by blast
      show "?R r r'"
        unfolding valid_facility_def cleaned_cells(1,2,3) [OF c]
        by (simp add: f facility_of_nth)
    qed
    have "list_all (valid_facility facility_columns) (rows out)"
      using all2 by (auto simp: list_all_iff list_all2_conv_all_nth in_set_conv_nth)
    moreover have "list_all2 (\<lambda>r r'.
          cell_of facility_columns r' ''Latitude'' = cell_of (columns df) r ''Latitude'' \<and>
          cell_of facility_columns r' ''Longitude'' = cell_of (columns df) r ''Longitude'')
        (filter (retained (columns df)) (rows df)) (rows out)"
      by (rule list_all2_mono [OF all2]) simp
    ultimately show ?thesis by (simp add: cols)
  qed
  have dir: "list_all (valid_facility (columns loaded)) (rows loaded)"
    if l: "load_facility_data lib dir = (Some loaded, notes)"
  proof -
    have "valid_facility facility_columns r" if "r \<in> set (rows loaded)" for r
    proof -
      from that load_Some(1) [OF l] obtain d where d: "d \<in> set (rights (outcomes lib (csv_files dir)))"
        and rd: "r \<in> set (rows d)"
        by (auto simp: rows_pd_concat)
      from rights_processed [OF d] obtain name content where p: "process_file lib name content = Inr d"
        by blast
      from process_file_Inr [OF p] obtain df where "content = Inr df" by blast
      with p per_file [of name df d] process_file_rows(1) [of lib name df d] rd
      show ?thesis by (simp add: list_all_iff)
    qed
    then show ?thesis by (simp add: load_columns [OF l] list_all_iff)
  qed
  show ?thesis using per_file [of name df out] dir by blast
qed

theorem loaded_records_valid_witness:
  "process_file whole_numbers ''a.csv'' (Inr clinics) = Inr clinics_cleaned \<and>
   list_all (valid_facility (columns clinics_cleaned)) (rows clinics_cleaned) \<and>
   length (rows clinics) = 5 \<and> length (rows clinics_cleaned) = 3"
  using loaded_records_valid [of whole_numbers "''a.csv''" clinics clinics_cleaned, THEN conjunct1]
    clinics_processed
  by (simp add: clinics_def clinics_cleaned_def)

lemma digits_chars: "set (digits n) \<subseteq> set ''0123456789''"
proof (induction n rule: digits.induct)
  case (1 n)
  have d: "digit_char k \<in> set ''0123456789''" if "k < 10" for k
    using that unfolding digit_char_def by (intro nth_mem) simp
  show ?case
  proof (cases "n < 10")
    case True
    then show ?thesis using d [of n] by (subst digits.simps) simp
  next
    case False
    then show ?thesis using 1 d [of "n mod 10"] by (subst digits.simps) simp
  qed
qed

lemma show_int_no_dot: "CHR ''.'' \<notin> set (show_int i)"
  using digits_chars [of "nat i"] digits_chars [of "nat (- i)"]
  by (auto simp: show_int_def)

lemma show_int_no_suffix: "\<not> suffix ''.0'' (show_int i)"
proof
  assume "suffix ''.0'' (show_int i)"
  then have "set ''.0'' \<subseteq> set (show_int i)" by (rule set_mono_suffix)
  with show_int_no_dot [of i] show False by simp
qed

lemma zip_lambda_result:
  assumes "zip_lambda lib x = Inr z"
  shows "\<not> suffix ''.0'' z \<and> (if suffix ''.0'' x then \<exists>f i. parse_float lib x = Inr f \<and> py_int f = Inr i \<and> z = show_int i else z = x)"
  using assms show_int_no_suffix
  by (auto simp: zip_lambda_def and_then_Inr split: if_splits)

text \<open>
  C4. A file that lacks a required column, a file that cannot be read and a file whose
  cleaning raises are each skipped with one notice and contribute no rows. The loop goes on:
  the frames and notices of the files before and after a skipped file are those of a load
  without it, so the loaded rows are the same with and without the skipped file. With three
  files of which the second lacks the postal code column and the others yield 10 and 5 rows,
  the load has 15 rows and the one notice of the skipped file.
\<close>

theorem skipped_file_isolated:
  "(\<not> set required_columns \<subseteq> set (columns df) \<longrightarrow>
      (\<exists>missing. missing \<noteq> [] \<and> process_file lib name (Inr df) = Inl (MissingColumns name missing))) \<and>
   process_file lib name (Inl e) = Inl (CouldNotProcess name e) \<and>
   (set required_columns \<subseteq> set (columns df) \<and> clean_facility_df lib name df = Inl e \<longrightarrow>
      process_file lib name (Inr df) = Inl (CouldNotProcess name e)) \<and>
   (process_file lib name content = Inl n \<longrightarrow>
      load_loop lib (before @ (name, content) # after) ([], []) =
        (fst (load_loop lib before ([], [])) @ fst (load_loop lib after ([], [])),
         snd (load_loop lib before ([], [])) @ [n] @ snd (load_loop lib after ([], []))) \<and>
      loaded_rows (load_facility_data lib \<lparr>dir_exists = True, csv_files = before @ (name, content) # after\<rparr>) =
        loaded_rows (load_facility_data lib \<lparr>dir_exists = True, csv_files = before @ after\<rparr>)) \<and>
   (process_file lib n1 c1 = Inr d1 \<and> length (rows d1) = 10 \<and> ''Zip'' \<notin> set (columns df2) \<and>
    process_file lib n3 c3 = Inr d3 \<and> length (rows d3) = 5 \<longrightarrow>
      (\<exists>loaded missing.
          load_facility_data lib \<lparr>dir_exists = True, csv_files = [(n1, c1), (n2, Inr df2), (n3, c3)]\<rparr> =
            (Some loaded, [MissingColumns n2 missing]) \<and>
          length (rows loaded) = 15))"
proof -
  have missing: "\<exists>missing. missing \<noteq> [] \<and> process_file lib name (Inr df) = Inl (MissingColumns name missing)"
    if "\<not> set required_columns \<subseteq> set (columns df)" for name df
  proof -
    from that have "filter (\<lambda>col. col \<notin> set (columns df)) required_columns \<noteq> []"
      by (auto simp: filter_empty_conv)
    then show ?thesis by (auto simp: process_file_def Let_def)
  qed
  have unreadable: "process_file lib name (Inl e) = Inl (CouldNotProcess name e)"
    by (simp add: process_file_def)
  have raised: "process_file lib name (Inr df) = Inl (CouldNotProcess name e)"
    if "set required_columns \<subseteq> set (columns df)" "clean_facility_df lib name df = Inl e"
  proof -
    from that(1) have "filter (\<lambda>col. col \<notin> set (columns df)) required_columns = []"
      by (auto simp: filter_empty_conv)
    with that(2) show ?thesis by (simp add: process_file_def)
  qed
  have isolated: "load_loop lib (before @ (name, content) # after) ([], []) =
        (fst (load_loop lib before ([], [])) @ fst (load_loop lib after ([], [])),
         snd (load_loop lib before ([], [])) @ [n] @ snd (load_loop lib after ([], []))) \<and>
      loaded_rows (load_facility_data lib \<lparr>dir_exists = True, csv_files = before @ (name, content) # after\<rparr>) =
        loaded_rows (load_facility_data lib \<lparr>dir_exists = True, csv_files = before @ after\<rparr>)"
    if "process_file lib name content = Inl n"
  proof -
    from that have o: "outcomes lib [(name, content)] = [Inl n]" by (simp add: outcomes_def)
    have "outcomes lib (before @ (name, content) # after) =
            outcomes lib before @ outcomes lib [(name, content)] @ outcomes lib after"
      by (simp add: outcomes_def)
    then show ?thesis
      by (simp add: load_loop_outcomes loaded_rows_eq o outcomes_append rights_append lefts_append)
  qed
  have example: "\<exists>loaded missing.
          load_facility_data lib \<lparr>dir_exists = True, csv_files = [(n1, c1), (n2, Inr df2), (n3, c3)]\<rparr> =
            (Some loaded, [MissingColumns n2 missing]) \<and>
          length (rows loaded) = 15"
    if h: "process_file lib n1 c1 = Inr d1" "length (rows d1) = 10" "''Zip'' \<notin> set (columns df2)"
      "process_file lib n3 c3 = Inr d3" "length (rows d3) = 5"
  proof -
    from h(3) have "\<not> set required_columns \<subseteq> set (columns df2)"
      by (auto simp: required_columns_def)
    from missing [OF this] obtain missing
      where m: "process_file lib n2 (Inr df2) = Inl (MissingColumns n2 missing)" by blast
    have "load_facility_data lib \<lparr>dir_exists = True, csv_files = [(n1, c1), (n2, Inr df2), (n3, c3)]\<rparr> =
            (Some (pd_concat [d1, d3]), [MissingColumns n2 missing])"
      by (simp add: load_facility_data_def h(1) h(4) m)
    moreover have "length (rows (pd_concat [d1, d3])) = 15"
      by (simp add: rows_pd_concat h(2) h(5))
    ultimately show ?thesis by blast
  qed
  show ?thesis
    using missing [of df name] unreadable raised isolated example by blast
qed

theorem skipped_file_isolated_witness:
  "process_file whole_numbers ''a.csv'' (Inr (plain_file 10)) = Inr (plain_loaded ''a.csv'' 10) \<and>
   length (rows (plain_loaded ''a.csv'' 10)) = 10 \<and> ''Zip'' \<notin> set (columns no_zip_file) \<and>
   process_file whole_numbers ''c.csv'' (Inr (plain_file 5)) = Inr (plain_loaded ''c.csv'' 5) \<and>
   length (rows (plain_loaded ''c.csv'' 5)) = 5 \<and>
   (\<exists>loaded missing.
      load_facility_data whole_numbers \<lparr>dir_exists = True, csv_files =
        [(''a.csv'', Inr (plain_file 10)), (''b.csv'', Inr no_zip_file), (''c.csv'', Inr (plain_file 5))]\<rparr> =
        (Some loaded, [MissingColumns ''b.csv'' missing]) \<and>
      length (rows loaded) = 15)"
proof -
  have a: "process_file whole_numbers ''a.csv'' (Inr (plain_file 10)) = Inr (plain_loaded ''a.csv'' 10)"
    by (rule plain_processed)
  have c: "process_file whole_numbers ''c.csv'' (Inr (plain_file 5)) = Inr (plain_loaded ''c.csv'' 5)"
    by (rule plain_processed)
  have la: "length (rows (plain_loaded ''a.csv'' 10)) = 10" by (simp add: plain_loaded_def)
  have lc: "length (rows (plain_loaded ''c.csv'' 5)) = 5" by (simp add: plain_loaded_def)
  have z: "''Zip'' \<notin> set (columns no_zip_file)" by (simp add: no_zip_file_def)
  from skipped_file_isolated [where lib = whole_numbers and ?n1.0 = "''a.csv''"
      and ?c1.0 = "Inr (plain_file 10)" and ?d1.0 = "plain_loaded ''a.csv'' 10" and ?df2.0 = no_zip_file
      and ?n2.0 = "''b.csv''" and ?n3.0 = "''c.csv''" and ?c3.0 = "Inr (plain_file 5)"
      and ?d3.0 = "plain_loaded ''c.csv'' 5"]
  have "\<exists>loaded missing.
      load_facility_data whole_numbers \<lparr>dir_exists = True, csv_files =
        [(''a.csv'', Inr (plain_file 10)), (''b.csv'', Inr no_zip_file), (''c.csv'', Inr (plain_file 5))]\<rparr> =
        (Some loaded, [MissingColumns ''b.csv'' missing]) \<and>
      length (rows loaded) = 15"
    using a c la lc z by blast
  with a c la lc z show ?thesis by blast
qed

text \<open>
  C8, as the code has it. The postal code of every record of a processed file is a string
  that does not end in \<^verbatim>\<open>.0\<close>: when the trimmed text of the source value ends in
  \<^verbatim>\<open>.0\<close> and is a number, it is replaced by the decimal digits of the number's integer
  value (with a minus sign when negative); every other value is kept as its trimmed text,
  which need not consist of digits.
\<close>

theorem postal_code_no_trailing_zero:
  "(process_file lib name (Inr df) = Inr out \<longrightarrow>
      list_all2 (\<lambda>r r'. \<exists>zp z.
          cell_of (columns df) r ''Zip'' = Some zp \<and> cell_of (columns out) r' ''Zip'' = Some (CStr z) \<and>
          \<not> suffix ''.0'' z \<and>
          (if suffix ''.0'' (py_strip (py_str lib zp))
           then \<exists>f i. parse_float lib (py_strip (py_str lib zp)) = Inr f \<and> py_int f = Inr i \<and> z = show_int i
           else z = py_strip (py_str lib zp)))
        (filter (retained (columns df)) (rows df)) (rows out)) \<and>
   \<not> suffix ''.0'' (show_int i)"
proof -
  have rows: "list_all2 (\<lambda>r r'. \<exists>zp z.
          cell_of (columns df) r ''Zip'' = Some zp \<and> cell_of (columns out) r' ''Zip'' = Some (CStr z) \<and>
          \<not> suffix ''.0'' z \<and>
          (if suffix ''.0'' (py_strip (py_str lib zp))
           then \<exists>f i. parse_float lib (py_strip (py_str lib zp)) = Inr f \<and> py_int f = Inr i \<and> z = show_int i
           else z = py_strip (py_str lib zp)))
        (filter (retained (columns df)) (rows df)) (rows out)"
    if p: "process_file lib name (Inr df) = Inr out"
  proof (rule list.rel_mono_strong [OF process_file_rows(2) [OF p]])
    fix r r'
    assume r: "r \<in> set (filter (retained (columns df)) (rows df))"
      and c: "cleaned lib (facility_of (columns df) name r) r'"
    from r have "r \<in> set (rows df)" by simp
    then obtain zp where zp: "cell_of (columns df) r ''Zip'' = Some zp"
      using process_file_rows(3) [OF p, of r "''Zip''"] by (auto simp: required_columns_def)
    from cleaned_cells(6) [OF c] obtain z where
      z: "zip_lambda lib (py_strip (py_str lib zp)) = Inr z"
      and cz: "cell_of (columns out) r' ''Zip'' = Some (CStr z)"
      by (auto simp: facility_of_nth zp process_file_rows(1) [OF p])
    show "\<exists>zp z.
          cell_of (columns df) r ''Zip'' = Some zp \<and> cell_of (columns out) r' ''Zip'' = Some (CStr z) \<and>
          \<not> suffix ''.0'' z \<and>
          (if suffix ''.0'' (py_strip (py_str lib zp))
           then \<exists>f i. parse_float lib (py_strip (py_str lib zp)) = Inr f \<and> py_int f = Inr i \<and> z = show_int i
           else z = py_strip (py_str lib zp))"
      by (intro exI [of _ zp] exI [of _ z] conjI)
        (rule zp, rule cz, rule zip_lambda_result [OF z, THEN conjunct1],
         rule zip_lambda_result [OF z, THEN conjunct2])
  qed
  show ?thesis
    by (intro conjI impI) (erule rows, rule show_int_no_suffix)
qed


theorem postal_code_no_trailing_zero_witness:
  "process_file whole_numbers ''a.csv'' (Inr clinics) = Inr clinics_cleaned \<and>
   list_all2 (\<lambda>r r'. \<exists>zp z.
       cell_of (columns clinics) r ''Zip'' = Some zp \<and>
       cell_of (columns clinics_cleaned) r' ''Zip'' = Some (CStr z) \<and>
       \<not> suffix ''.0'' z \<and>
       (if suffix ''.0'' (py_strip (py_str whole_numbers zp))
        then \<exists>f i. parse_float whole_numbers (py_strip (py_str whole_numbers zp)) = Inr f \<and>
               py_int f = Inr i \<and> z = show_int i
        else z = py_strip (py_str whole_numbers zp)))
     (filter (retained (columns clinics)) (rows clinics)) (rows clinics_cleaned)"
  by (rule conjI [OF clinics_processed
        postal_code_no_trailing_zero [of whole_numbers "''a.csv''" clinics clinics_cleaned,
          THEN conjunct1, THEN mp, OF clinics_processed]])

text \<open>
  The claim C8 as the specification states it fails on a nine-digit postal code: the second
  row of the example file is retained, and its record keeps \<^verbatim>\<open>62704-1234\<close>, which is
  no digit string.
\<close>

theorem postal_code_digits_counterexample:
  "process_file whole_numbers ''a.csv'' (Inr clinics) = Inr clinics_cleaned \<and>
   retained (columns clinics) (rows clinics ! 1) \<and>
   cell_of (columns clinics) (rows clinics ! 1) ''Zip'' = Some (CStr ''62704-1234'') \<and>
   cell_of (columns clinics_cleaned) (rows clinics_cleaned ! 1) ''Zip'' = Some (CStr ''62704-1234'') \<and>
   \<not> digit_string ''62704-1234''"
proof (intro conjI)
  show "process_file whole_numbers ''a.csv'' (Inr clinics) = Inr clinics_cleaned"
    by (rule clinics_processed)
  show "retained (columns clinics) (rows clinics ! 1)"
    by (simp add: clinics_def clinic_row_def retained_def cell_of_def required_columns_def
        in_range_def isna_def)
  show "cell_of (columns clinics) (rows clinics ! 1) ''Zip'' = Some (CStr ''62704-1234'')"
    by (simp add: clinics_def clinic_row_def cell_of_def required_columns_def)
  show "cell_of (columns clinics_cleaned) (rows clinics_cleaned ! 1) ''Zip'' = Some (CStr ''62704-1234'')"
    by (simp add: clinics_cleaned_def cleaned_row_def cell_of_def required_columns_def)
  show "\<not> digit_string ''62704-1234''"
    by (simp add: digit_string_def)
qed

section \<open>Replacing in strings\<close>






lemma py_replace_char:
  "py_replace [a] new s = concat (map (\<lambda>c. if c = a then new else [c]) s)"
  by (induction s) auto


section \<open>Properties of the renderer\<close>


lemma marker_js_fill:
  assumes "marker_js lib cols (idx, facility) = Inr js"
  shows "\<exists>lat lon popup. js = marker_template (show_int (int idx)) lat lon ''#000000''
           (fst (classify (series_get cols facility ''is_substance_abuse_rehab'' (CStr ''N/A''))
                          (series_get cols facility ''is_sud_rehab_clinic'' (CStr ''N/A'')))) popup"
  using assms by (auto simp: marker_js_def Let_def and_then_Inr)

text \<open>
  C7. With no collection, or with an empty one, the renderer returns the base document
  itself.
\<close>

theorem empty_collection_identity:
  "inject_facility_markers_into_html lib original_html None = Inr original_html \<and>
   (df_empty df \<longrightarrow> inject_facility_markers_into_html lib original_html (Some df) = Inr original_html)"
  by (simp add: inject_facility_markers_into_html_def)

theorem empty_collection_identity_witness:
  "df_empty \<lparr>columns = required_columns, rows = []\<rparr> \<and>
   inject_facility_markers_into_html whole_numbers ''<html><body></body></html>''
     (Some \<lparr>columns = required_columns, rows = []\<rparr>) = Inr ''<html><body></body></html>''"
proof -
  have e: "df_empty \<lparr>columns = required_columns, rows = []\<rparr>" by (simp add: df_empty_def)
  from empty_collection_identity [of whole_numbers "''<html><body></body></html>''"
      "\<lparr>columns = required_columns, rows = []\<rparr>", THEN conjunct2, THEN mp, OF e] e
  show ?thesis by (rule conjI [rotated])
qed

text \<open>
  C5. The four categories exclude each other and are tried in order. A record whose two flags
  both equal the string \<^verbatim>\<open>'True'\<close>, the loader's value for true, gets the colour and
  the description of both types, never those of one type alone. A record whose flags come
  from the source values 1 and 0 gets the colour \<^verbatim>\<open>#FF0000\<close> and the description of a
  substance abuse rehab, and the marker of a record is drawn with the fill colour of its
  category.
\<close>

theorem classification_precedence:
  "(py_eq a (CStr ''True'') \<and> py_eq b (CStr ''True'') \<longrightarrow>
      classify a b = (''#800080'', ''Substance Abuse Rehab & SUD Rehab Clinic'') \<and>
      classify a b \<noteq> (''#FF0000'', ''Substance Abuse Rehab'') \<and>
      classify a b \<noteq> (''#0000FF'', ''SUD Rehab Clinic'')) \<and>
   (py_eq a (CStr ''True'') \<and> \<not> py_eq b (CStr ''True'') \<longrightarrow>
      classify a b = (''#FF0000'', ''Substance Abuse Rehab'')) \<and>
   (\<not> py_eq a (CStr ''True'') \<and> py_eq b (CStr ''True'') \<longrightarrow>
      classify a b = (''#0000FF'', ''SUD Rehab Clinic'')) \<and>
   (\<not> py_eq a (CStr ''True'') \<and> \<not> py_eq b (CStr ''True'') \<longrightarrow>
      classify a b = (''#808080'', ''Other/Unknown'')) \<and>
   classify (CStr (normalize_flag (CInt 1))) (CStr (normalize_flag (CInt 0))) =
     (''#FF0000'', ''Substance Abuse Rehab'') \<and>
   (marker_js lib cols (idx, facility) = Inr js \<longrightarrow>
      (\<exists>lat lon popup. js = marker_template (show_int (int idx)) lat lon ''#000000''
           (fst (classify (series_get cols facility ''is_substance_abuse_rehab'' (CStr ''N/A''))
                          (series_get cols facility ''is_sud_rehab_clinic'' (CStr ''N/A'')))) popup))"
proof (intro conjI impI)
  assume "py_eq a (CStr ''True'') \<and> py_eq b (CStr ''True'')"
  then show "classify a b = (''#800080'', ''Substance Abuse Rehab & SUD Rehab Clinic'')"
    and "classify a b \<noteq> (''#FF0000'', ''Substance Abuse Rehab'')"
    and "classify a b \<noteq> (''#0000FF'', ''SUD Rehab Clinic'')"
    by (simp_all add: classify_def)
next
  assume "py_eq a (CStr ''True'') \<and> \<not> py_eq b (CStr ''True'')"
  then show "classify a b = (''#FF0000'', ''Substance Abuse Rehab'')"
    by (simp add: classify_def)
next
  assume "\<not> py_eq a (CStr ''True'') \<and> py_eq b (CStr ''True'')"
  then show "classify a b = (''#0000FF'', ''SUD Rehab Clinic'')"
    by (simp add: classify_def)
next
  assume "\<not> py_eq a (CStr ''True'') \<and> \<not> py_eq b (CStr ''True'')"
  then show "classify a b = (''#808080'', ''Other/Unknown'')"
    by (simp add: classify_def)
next
  show "classify (CStr (normalize_flag (CInt 1))) (CStr (normalize_flag (CInt 0))) =
     (''#FF0000'', ''Substance Abuse Rehab'')"
    by (simp add: classify_def normalize_flag_num)
next
  assume "marker_js lib cols (idx, facility) = Inr js"
  then show "\<exists>lat lon popup. js = marker_template (show_int (int idx)) lat lon ''#000000''
           (fst (classify (series_get cols facility ''is_substance_abuse_rehab'' (CStr ''N/A''))
                          (series_get cols facility ''is_sud_rehab_clinic'' (CStr ''N/A'')))) popup"
    by (rule marker_js_fill)
qed

theorem classification_precedence_witness:
  "py_eq (CStr ''True'') (CStr ''True'') \<and>
   classify (CStr ''True'') (CStr ''True'') = (''#800080'', ''Substance Abuse Rehab & SUD Rehab Clinic'')"
proof -
  have e: "py_eq (CStr ''True'') (CStr ''True'') \<and> py_eq (CStr ''True'') (CStr ''True'')" by simp
  from classification_precedence [of "CStr ''True''" "CStr ''True''", THEN conjunct1, THEN mp, OF e,
      THEN conjunct1]
  show ?thesis by simp
qed



section \<open>What the renderer inserts, and where\<close>















end
